theory Spec2Isabelle
  imports Complex_Main
begin

section \<open>Dates of the Earth Engine client (\<^verbatim>\<open>ee.Date\<close>, \<^verbatim>\<open>ee.DateRange\<close>)\<close>

text \<open>
  \<^verbatim>\<open>RIT.js\<close> is a script for the Earth Engine code editor. An \<^verbatim>\<open>ee.Date\<close> is an instant,
  counted in milliseconds since 1970-01-01T00:00:00 UTC; an \<^verbatim>\<open>ee.DateRange\<close> is a pair of
  instants, read as the half-open interval from its start up to, not including, its end.
  The script calls \<^verbatim>\<open>getRange("year")\<close>, \<^verbatim>\<open>getRange("month")\<close>, \<^verbatim>\<open>format("MMMM dd, YYYY")\<close>
  and builds dates from strings such as \<^verbatim>\<open>"2021-12-14"\<close>. These functions belong to the
  platform, not to the repository; they are written out here as calendar arithmetic on the
  proleptic Gregorian calendar in UTC, which is what the platform documents.
\<close>

type_synonym instant = int
type_synonym dateRange = "instant \<times> instant"

definition msPerDay :: int where
  "msPerDay = 86400000"

definition is_leap :: "int \<Rightarrow> bool" where
  "is_leap y = (y mod 4 = 0 \<and> (y mod 100 \<noteq> 0 \<or> y mod 400 = 0))"

definition days_in_year :: "int \<Rightarrow> int" where
  "days_in_year y = (if is_leap y then 366 else 365)"

definition days_in_month :: "int \<Rightarrow> nat \<Rightarrow> int" where
  "days_in_month y m =
     (if m = 2 then (if is_leap y then 29 else 28)
      else if m = 4 \<or> m = 6 \<or> m = 9 \<or> m = 11 then 30 else 31)"

text \<open>
  \<open>find_year y d\<close>: the day with offset \<open>d\<close> from the first of January of year \<open>y\<close> lies in
  the year returned, at the offset returned. It walks one year at a time, in either direction.
\<close>

function find_year :: "int \<Rightarrow> int \<Rightarrow> int \<times> int" where
  "find_year y d =
     (if d < 0 then find_year (y - 1) (d + days_in_year (y - 1))
      else if days_in_year y \<le> d then find_year (y + 1) (d - days_in_year y)
      else (y, d))"
  by pat_completeness auto
termination
  by (relation "measure (\<lambda>(y, d). if d < 0 then nat (- d) + 366 else nat d)")
     (auto simp: days_in_year_def split: if_splits)

declare find_year.simps [simp del]

text \<open>\<open>find_month y m d\<close>: the same walk over the months of year \<open>y\<close>, from month \<open>m\<close> on.\<close>

function find_month :: "int \<Rightarrow> nat \<Rightarrow> int \<Rightarrow> nat \<times> int" where
  "find_month y m d =
     (if m < 12 \<and> days_in_month y m \<le> d
      then find_month y (Suc m) (d - days_in_month y m)
      else (m, d))"
  by pat_completeness auto
termination
  by (relation "measure (\<lambda>(y, m, d). 12 - m)") auto

declare find_month.simps [simp del]

text \<open>The calendar fields (year, month 1..12, day of the month 1..31) of an instant, in UTC.\<close>

definition civil :: "instant \<Rightarrow> int \<times> nat \<times> int" where
  "civil t =
     (let (y, doy) = find_year 1970 (t div msPerDay);
          (m, mday) = find_month y 1 doy
      in (y, m, mday + 1))"

text \<open>
  The other direction, in closed form: midnight UTC at the start of a calendar date. This is
  what \<^verbatim>\<open>ee.Date("2018-06-10")\<close> denotes.
\<close>

definition leaps_before :: "int \<Rightarrow> int" where
  "leaps_before y = (y - 1) div 4 - (y - 1) div 100 + (y - 1) div 400"

definition days_before_year :: "int \<Rightarrow> int" where
  "days_before_year y = 365 * (y - 1970) + (leaps_before y - leaps_before 1970)"

definition days_before_month :: "int \<Rightarrow> nat \<Rightarrow> int" where
  "days_before_month y m = sum_list (map (days_in_month y) [1..<m])"

definition utc_ms :: "int \<Rightarrow> nat \<Rightarrow> int \<Rightarrow> instant" where
  "utc_ms y m d = (days_before_year y + days_before_month y m + (d - 1)) * msPerDay"

text \<open>
  \<^verbatim>\<open>ee.Date.getRange(unit)\<close>: the range of the given unit that holds the date. The fields
  below the unit are cut off, and the end is one unit after the start.
\<close>

datatype time_unit = year_unit | month_unit | day_unit

definition getRange :: "time_unit \<Rightarrow> instant \<Rightarrow> dateRange" where
  "getRange u t =
     (let day = t div msPerDay;
          (y, doy) = find_year 1970 day;
          (m, mday) = find_month y 1 doy
      in case u of
           year_unit \<Rightarrow> ((day - doy) * msPerDay, (day - doy + days_in_year y) * msPerDay)
         | month_unit \<Rightarrow> ((day - mday) * msPerDay, (day - mday + days_in_month y m) * msPerDay)
         | day_unit \<Rightarrow> (day * msPerDay, (day + 1) * msPerDay))"

text \<open>
  The calendar unit that holds an instant, said with calendar dates only: from the first
  instant of the unit to the first instant of the unit after it. The windows the script
  uses are compared with this one.
\<close>

definition canonical_window :: "time_unit \<Rightarrow> instant \<Rightarrow> dateRange" where
  "canonical_window u t =
     (let (y, m, d) = civil t
      in case u of
           year_unit \<Rightarrow> (utc_ms y 1 1, utc_ms (y + 1) 1 1)
         | month_unit \<Rightarrow>
             (utc_ms y m 1, if m = 12 then utc_ms (y + 1) 1 1 else utc_ms y (Suc m) 1)
         | day_unit \<Rightarrow> (utc_ms y m d, utc_ms y m (d + 1)))"

definition in_range :: "dateRange \<Rightarrow> instant \<Rightarrow> bool" where
  "in_range w t = (fst w \<le> t \<and> t < snd w)"

text \<open>Two instants in the same calendar year, in the same month, on the same day (UTC).\<close>

definition same_unit :: "time_unit \<Rightarrow> instant \<Rightarrow> instant \<Rightarrow> bool" where
  "same_unit u t t' =
     (case u of
        year_unit \<Rightarrow> fst (civil t') = fst (civil t)
      | month_unit \<Rightarrow> fst (civil t') = fst (civil t) \<and> fst (snd (civil t')) = fst (snd (civil t))
      | day_unit \<Rightarrow> civil t' = civil t)"

subsection \<open>Printing and reading dates\<close>

definition digit_char :: "nat \<Rightarrow> char" where
  "digit_char n = char_of (48 + n mod 10)"

fun show_nat :: "nat \<Rightarrow> string" where
  "show_nat n = (if n < 10 then [digit_char n] else show_nat (n div 10) @ [digit_char n])"

definition pad_left :: "nat \<Rightarrow> string \<Rightarrow> string" where
  "pad_left w s = replicate (w - length s) (CHR ''0'') @ s"

definition month_name :: "nat \<Rightarrow> string" where
  "month_name m =
     (if m = 1 then ''January'' else if m = 2 then ''February'' else if m = 3 then ''March''
      else if m = 4 then ''April'' else if m = 5 then ''May'' else if m = 6 then ''June''
      else if m = 7 then ''July'' else if m = 8 then ''August''
      else if m = 9 then ''September'' else if m = 10 then ''October''
      else if m = 11 then ''November'' else ''December'')"

text \<open>
  \<^verbatim>\<open>format("MMMM dd, YYYY")\<close>: the month's name, the day of the month on two digits, and
  the year of the era on at least four digits.
\<close>

definition format_MMMM_dd_YYYY :: "instant \<Rightarrow> string" where
  "format_MMMM_dd_YYYY t =
     (let (y, m, d) = civil t
      in month_name m @ '' '' @ pad_left 2 (show_nat (nat d)) @ '', ''
         @ pad_left 4 (show_nat (nat (if 0 < y then y else 1 - y))))"

definition digit_of :: "char \<Rightarrow> nat option" where
  "digit_of c =
     (let n = of_char c :: nat in if 48 \<le> n \<and> n \<le> 57 then Some (n - 48) else None)"

fun read_nat :: "nat \<Rightarrow> string \<Rightarrow> nat option" where
  "read_nat acc [] = Some acc"
| "read_nat acc (c # cs) =
     (case digit_of c of None \<Rightarrow> None | Some n \<Rightarrow> read_nat (10 * acc + n) cs)"

text \<open>
  A date written \<^verbatim>\<open>YYYY-MM-DD\<close>, as the entries of \<^verbatim>\<open>locationDict\<close> are: midnight UTC of that
  day. Anything else is not read.
\<close>

definition parse_date :: "string \<Rightarrow> instant option" where
  "parse_date s =
     (if length s = 10 \<and> s ! 4 = CHR ''-'' \<and> s ! 7 = CHR ''-''
      then (case (read_nat 0 (take 4 s), read_nat 0 (take 2 (drop 5 s)),
                  read_nat 0 (drop 8 s)) of
              (Some y, Some m, Some d) \<Rightarrow>
                (if 1 \<le> m \<and> m \<le> 12 \<and> 1 \<le> d \<and> int d \<le> days_in_month (int y) m
                 then Some (utc_ms (int y) m (int d)) else None)
            | _ \<Rightarrow> None)
      else None)"

section \<open>Sentinel-1 observations and Earth Engine objects\<close>

text \<open>
  The objects the script builds with the \<^verbatim>\<open>ee\<close> client are descriptions of computations: a
  collection is the archive with filters put on it, an image is a reduction of a collection.
  They are modelled as such (datatypes), with functions that say what each description
  denotes over a given archive. An observation is one pass of the satellite: its
  acquisition time, the metadata the filters read, and one raster for each band. A raster
  gives a backscatter value where the pass has data and nothing elsewhere.
\<close>

type_synonym pixel = "int \<times> int"
type_synonym raster = "pixel \<Rightarrow> real option"

record image =
  system_time_start :: instant
  transmitterReceiverPolarisation :: "string list"
  instrumentMode :: string
  orbitProperties_pass :: string
  bands :: "string \<Rightarrow> raster option"

datatype ee_filter = Filter_listContains string string | Filter_eq string string

datatype collection =
    COPERNICUS_S1_GRD
  | Filter ee_filter collection
  | FilterDate instant instant collection

datatype band_collection =
    Select string collection
  | Merge band_collection band_collection

datatype ee_image =
    Reduce_max band_collection
  | Cat "ee_image list"

text \<open>Lines 36-49 of \<^verbatim>\<open>RIT.js\<close>: the archive and its sub-collections.\<close>

definition sentinel1 :: collection where
  "sentinel1 = COPERNICUS_S1_GRD"

definition vh :: collection where
  "vh = Filter (Filter_eq ''instrumentMode'' ''IW'')
         (Filter (Filter_listContains ''transmitterReceiverPolarisation'' ''VV'')
           (Filter (Filter_listContains ''transmitterReceiverPolarisation'' ''VH'') sentinel1))"

definition vhA :: collection where
  "vhA = Filter (Filter_eq ''orbitProperties_pass'' ''ASCENDING'') vh"

definition vhD :: collection where
  "vhD = Filter (Filter_eq ''orbitProperties_pass'' ''DESCENDING'') vh"

subsection \<open>What the descriptions denote\<close>

definition list_property :: "image \<Rightarrow> string \<Rightarrow> string list option" where
  "list_property im p =
     (if p = ''transmitterReceiverPolarisation''
      then Some (transmitterReceiverPolarisation im) else None)"

definition string_property :: "image \<Rightarrow> string \<Rightarrow> string option" where
  "string_property im p =
     (if p = ''instrumentMode'' then Some (instrumentMode im)
      else if p = ''orbitProperties_pass'' then Some (orbitProperties_pass im)
      else None)"

fun filter_holds :: "ee_filter \<Rightarrow> image \<Rightarrow> bool" where
  "filter_holds (Filter_listContains p v) im =
     (case list_property im p of None \<Rightarrow> False | Some xs \<Rightarrow> v \<in> set xs)"
| "filter_holds (Filter_eq p v) im = (string_property im p = Some v)"

text \<open>
  \<^verbatim>\<open>filterDate(start, end)\<close> keeps the images whose \<^verbatim>\<open>system:time_start\<close> is at or after
  the start and before the end.
\<close>

fun images_of :: "image list \<Rightarrow> collection \<Rightarrow> image list" where
  "images_of archive COPERNICUS_S1_GRD = archive"
| "images_of archive (Filter f c) = filter (filter_holds f) (images_of archive c)"
| "images_of archive (FilterDate s e c) =
     filter (\<lambda>im. s \<le> system_time_start im \<and> system_time_start im < e) (images_of archive c)"

text \<open>
  \<^verbatim>\<open>select(band)\<close> keeps one band of every image, with the image's time; \<^verbatim>\<open>merge\<close> puts one
  collection after the other.
\<close>

fun bands_of :: "image list \<Rightarrow> band_collection \<Rightarrow> (instant \<times> raster) list" where
  "bands_of archive (Select b c) =
     List.map_filter (\<lambda>im. map_option (Pair (system_time_start im)) (bands im b))
       (images_of archive c)"
| "bands_of archive (Merge x y) = bands_of archive x @ bands_of archive y"

fun max_list :: "real list \<Rightarrow> real option" where
  "max_list [] = None"
| "max_list (x # xs) = (case max_list xs of None \<Rightarrow> Some x | Some m \<Rightarrow> Some (max x m))"

text \<open>
  \<^verbatim>\<open>max()\<close> on a collection: at every pixel, the largest of the values the images have
  there; no value where no image has one.
\<close>

definition reduce_max :: "raster list \<Rightarrow> raster" where
  "reduce_max rs p = max_list (List.map_filter (\<lambda>r. r p) rs)"

text \<open>The bands of an image, in order. \<^verbatim>\<open>ee.Image.cat\<close> puts the bands of its arguments in a row.\<close>

fun image_bands :: "image list \<Rightarrow> ee_image \<Rightarrow> raster list" where
  "image_bands archive (Reduce_max bc) = [reduce_max (map snd (bands_of archive bc))]"
| "image_bands archive (Cat xs) = concat (map (image_bands archive) xs)"

section \<open>The user interface\<close>

text \<open>
  The widgets of the script are mutable objects. Their state is gathered in one record,
  and every callback of the script is a function from the state before to the state after.
  A map layer is what \<^verbatim>\<open>ui.Map.Layer(eeObject, visParams, name, shown)\<close> builds.
\<close>

datatype ee_object =
    Collection_object collection
  | Image_object ee_image
  | Styled_point real real string string nat
  | Painted_outline "(string \<times> nat \<times> nat) list"

record vis_params =
  vis_min :: "real list"
  vis_max :: "real list"
  vis_opacity :: "real option"
  vis_palette :: "string list"

record layer =
  eeObject :: ee_object
  visParams :: vis_params
  name :: "string option"
  shown :: bool
  opacity :: real

text \<open>A layer is shown unless said otherwise, and its own opacity starts at 1.\<close>

definition Map_Layer :: "ee_object \<Rightarrow> vis_params \<Rightarrow> string option \<Rightarrow> bool \<Rightarrow> layer" where
  "Map_Layer obj vis nm sh =
     \<lparr>eeObject = obj, visParams = vis, name = nm, shown = sh, opacity = 1\<rparr>"

text \<open>
  A text is kept in parts, so that a number printed with \<^verbatim>\<open>toFixed(2)\<close> stays a number: how
  a floating-point number prints is not decided here.
\<close>

datatype text_part = Str string | ToFixed2 real

type_synonym rich_text = "text_part list"

datatype reducer = Reducer_max

text \<open>
  What \<^verbatim>\<open>ui.Chart.image.series(imageCollection, region, reducer, scale)\<close> is given, with the
  options set on the chart and the callback registered by \<^verbatim>\<open>onClick\<close>.
\<close>

record chart =
  series_collection :: band_collection
  series_region :: "real \<times> real"
  series_reducer :: reducer
  series_scale :: real
  chart_title :: rich_text
  vAxis_title :: string
  lineWidth :: nat
  series_option :: string
  onClick :: "string option"

text \<open>
  A widget in a panel. The widgets the script keeps in variables and changes later
  (\<^verbatim>\<open>date\<close>, \<^verbatim>\<open>image_info\<close>, \<^verbatim>\<open>lon\<close>, \<^verbatim>\<open>lat\<close>, the sliders and the dropdowns) stand in a
  panel by the name of their variable; their state is in the record below.
\<close>

datatype widget =
    Label rich_text "(string \<times> string) list" "string option"
  | Panel "widget list"
  | Chart chart
  | Widget_var string

record ui_state =
  map_center :: "(real \<times> real \<times> nat) option"
  layers :: "layer option list"
  inspector :: "widget option list"
  layerSelect_value :: string
  opacitySlider_value :: real
  date_label :: string
  image_info :: string
  lon_label :: rich_text
  lat_label :: rich_text
  dateSlider_value :: "dateRange option"
  locationSelect_value :: "string option"

subsection \<open>Lists of layers and of widgets (\<^verbatim>\<open>ui.data.ActiveList\<close>)\<close>

text \<open>
  \<^verbatim>\<open>set(i, x)\<close> overwrites position \<open>i\<close>; past the end it extends the list, as an assignment
  to a JavaScript array does, and the positions skipped hold nothing. \<^verbatim>\<open>get(i)\<close> of a
  position that holds nothing is \<^verbatim>\<open>undefined\<close>, and a method call on it throws.
\<close>

datatype error = TypeError

definition al_set :: "nat \<Rightarrow> 'a \<Rightarrow> 'a option list \<Rightarrow> 'a option list" where
  "al_set i x xs =
     (if i < length xs then xs[i := Some x]
      else xs @ replicate (i - length xs) None @ [Some x])"

definition al_get :: "nat \<Rightarrow> 'a option list \<Rightarrow> 'a option" where
  "al_get i xs = (if i < length xs then xs ! i else None)"

definition al_add :: "'a \<Rightarrow> 'a option list \<Rightarrow> 'a option list" where
  "al_add x xs = xs @ [Some x]"

definition al_forEach :: "('a \<Rightarrow> 'a) \<Rightarrow> 'a option list \<Rightarrow> 'a option list" where
  "al_forEach f xs = map (map_option f) xs"

definition al_elements :: "'a option list \<Rightarrow> 'a list" where
  "al_elements xs = List.map_filter (\<lambda>x. x) xs"

text \<open>\<^verbatim>\<open>get(i).method(...)\<close>: the method changes the element at position \<open>i\<close>.\<close>

definition al_call :: "nat \<Rightarrow> ('a \<Rightarrow> 'a) \<Rightarrow> 'a option list \<Rightarrow> error + 'a option list" where
  "al_call i f xs =
     (case al_get i xs of None \<Rightarrow> Inl TypeError | Some x \<Rightarrow> Inr (xs[i := Some (f x)]))"

subsection \<open>Step 4: the aggregation dropdown (lines 91-137)\<close>

definition dict :: "string \<Rightarrow> string option" where
  "dict k =
     (if k = ''Day'' then Some ''daily'' else if k = ''Month'' then Some ''monthly''
      else if k = ''Year'' then Some ''yearly'' else None)"

text \<open>
  The callback of \<^verbatim>\<open>layerSelect\<close>. It runs over every layer of the map; the label is set
  inside the loop, so it is set when the map has a layer.
\<close>

definition layerSelect_onChange :: "string \<Rightarrow> ui_state \<Rightarrow> ui_state" where
  "layerSelect_onChange selected s =
     s\<lparr>layers :=
         al_forEach (\<lambda>element. element\<lparr>shown := (Some selected = name element)\<rparr>) (layers s),
       image_info :=
         (if al_elements (layers s) = [] then image_info s
          else ''You are currently viewing ''
               @ (case dict selected of None \<Rightarrow> ''undefined'' | Some d \<Rightarrow> d)
               @ '' Sentinel-1 imagery from '')\<rparr>"

text \<open>The user picks an entry: the dropdown takes the value and calls the callback.\<close>

definition layerSelect_setValue :: "string \<Rightarrow> ui_state \<Rightarrow> ui_state" where
  "layerSelect_setValue selected s =
     layerSelect_onChange selected (s\<lparr>layerSelect_value := selected\<rparr>)"

subsection \<open>Step 5: the opacity slider (lines 141-151)\<close>

definition opacitySlider_onSlide :: "real \<Rightarrow> ui_state \<Rightarrow> ui_state" where
  "opacitySlider_onSlide v s =
     s\<lparr>layers := al_forEach (\<lambda>element. element\<lparr>opacity := v\<rparr>) (layers s)\<rparr>"

definition opacitySlider_setValue :: "real \<Rightarrow> ui_state \<Rightarrow> ui_state" where
  "opacitySlider_setValue v s = opacitySlider_onSlide v (s\<lparr>opacitySlider_value := v\<rparr>)"

subsection \<open>Step 6: the date selector (lines 166-246)\<close>

text \<open>The callback of the date slider, \<^verbatim>\<open>slide\<close>, lines 177-234.\<close>

definition slide :: "dateRange \<Rightarrow> ui_state \<Rightarrow> ui_state" where
  "slide rng s =
     (let year = getRange year_unit (fst rng);
          month = getRange month_unit (fst rng);
          vhA_monthly = FilterDate (fst month) (snd month) vhA;
          vhD_monthly = FilterDate (fst month) (snd month) vhD;
          vhA_annual = FilterDate (fst year) (snd year) vhA;
          vhD_annual = FilterDate (fst year) (snd year) vhD;
          comp_monthly = Cat
            [Reduce_max (Select ''VH'' vhA_monthly),
             Reduce_max (Merge (Select ''VV'' vhA_monthly) (Select ''VV'' vhD_monthly)),
             Reduce_max (Select ''VH'' vhD_monthly)];
          comp_annual = Cat
            [Reduce_max (Select ''VH'' vhA_annual),
             Reduce_max (Merge (Select ''VV'' vhA_annual) (Select ''VV'' vhD_annual)),
             Reduce_max (Select ''VH'' vhD_annual)];
          daily = Map_Layer
            (Collection_object (FilterDate (fst rng) (snd rng) vh))
            \<lparr>vis_min = [-25, -20, -25], vis_max = [0, 10, 0], vis_opacity = Some 0.8,
              vis_palette = []\<rparr>
            (Some ''Day'') (''Day'' = layerSelect_value s);
          monthly = Map_Layer
            (Image_object comp_monthly)
            \<lparr>vis_min = [-25, -20, -25], vis_max = [-10, 0, -10], vis_opacity = Some 0.8,
              vis_palette = []\<rparr>
            (Some ''Month'') (''Month'' = layerSelect_value s);
          yearly = Map_Layer
            (Image_object comp_annual)
            \<lparr>vis_min = [-25, -20, -25], vis_max = [-10, 0, -10], vis_opacity = Some 0.8,
              vis_palette = []\<rparr>
            (Some ''Year'') (''Year'' = layerSelect_value s)
      in s\<lparr>date_label := format_MMMM_dd_YYYY (fst rng),
           layers := al_set 2 yearly (al_set 1 monthly (al_set 0 daily (layers s)))\<rparr>)"

text \<open>
  Modelled from the spec: the date selector widget (\<^verbatim>\<open>ui.DateSlider\<close> with \<^verbatim>\<open>period: 1\<close>) is
  part of the platform and not in the repository. The spec has it turn an anchor date into
  the day window that holds it: a half-open interval whose end is the canonical successor
  of its start, in UTC.
\<close>

definition dateSlider_range :: "instant \<Rightarrow> dateRange" where
  "dateSlider_range t = getRange day_unit t"

text \<open>
  \<^verbatim>\<open>dateSlider.setValue(d)\<close>, and the user moving the slider to \<open>d\<close>: the slider takes the
  range as its value and calls \<^verbatim>\<open>slide\<close> with it.
\<close>

definition dateSlider_setValue :: "instant \<Rightarrow> ui_state \<Rightarrow> ui_state" where
  "dateSlider_setValue t s =
     slide (dateSlider_range t) (s\<lparr>dateSlider_value := Some (dateSlider_range t)\<rparr>)"

subsection \<open>Step 7: the chart (lines 251-291)\<close>

text \<open>\<^verbatim>\<open>generateChart\<close>, called with the coordinates \<open>(lon, lat)\<close> of a click.\<close>

definition generateChart :: "real \<times> real \<Rightarrow> ui_state \<Rightarrow> ui_state" where
  "generateChart coords s =
     (let dot = Map_Layer
            (Styled_point (fst coords) (snd coords) ''black'' ''#00FFFF'' 7)
            \<lparr>vis_min = [], vis_max = [], vis_opacity = None, vis_palette = []\<rparr>
            (Some ''clicked location'') True;
          rfiChart =
            \<lparr>series_collection = Select ''VH'' vh,
              series_region = coords,
              series_reducer = Reducer_max,
              series_scale = 500,
              chart_title =
                [Str ''Radio Frequency Interference at (lon:'', ToFixed2 (fst coords),
                 Str '', lat:'', ToFixed2 (snd coords), Str '')''],
              vAxis_title = ''VH '',
              lineWidth = 2,
              series_option = ''Area of Interest'',
              onClick = Some ''getDate''\<rparr>
      in s\<lparr>lon_label := [Str ''lon: '', ToFixed2 (fst coords)],
           lat_label := [Str ''lat: '', ToFixed2 (snd coords)],
           layers := al_set 3 dot (layers s),
           inspector := al_set 3 (Chart rfiChart) (inspector s)\<rparr>)"

text \<open>
  \<^verbatim>\<open>getDate\<close>, the callback of a click on the chart: it is handed the x value of the point,
  a time in milliseconds, and \<^verbatim>\<open>ee.Date\<close> of a number is that instant.
\<close>

definition getDate :: "instant \<Rightarrow> ui_state \<Rightarrow> ui_state" where
  "getDate callback s = dateSlider_setValue callback s"

definition chart_click :: "instant \<Rightarrow> ui_state \<Rightarrow> ui_state" where
  "chart_click x s =
     (case al_get 3 (inspector s) of
        Some (Chart c) \<Rightarrow> (if onClick c = Some ''getDate'' then getDate x s else s)
      | _ \<Rightarrow> s)"

subsection \<open>Step 8: the example locations (lines 299-552)\<close>

definition contact :: widget where
  "contact = Panel
     [Label [Str ''Please direct queries to @oballinger''] [(''font-size'', ''9px'')]
        (Some ''https://twitter.com/oballinger'')]"

text \<open>\<^verbatim>\<open>configureExample\<close>, lines 307-318.\<close>

definition configureExample :: "widget list \<Rightarrow> real \<Rightarrow> ui_state \<Rightarrow> error + ui_state" where
  "configureExample txt opac s =
     (case al_call 1 (\<lambda>l. l\<lparr>shown := True\<rparr>)
             (al_forEach (\<lambda>l. l\<lparr>shown := False\<rparr>) (layers s)) of
        Inl e \<Rightarrow> Inl e
      | Inr l1 \<Rightarrow>
     (case al_call 3 (\<lambda>l. l\<lparr>shown := True\<rparr>) l1 of
        Inl e \<Rightarrow> Inl e
      | Inr l2 \<Rightarrow>
     (case al_call 1 (\<lambda>l. l\<lparr>opacity := opac\<rparr>) l2 of
        Inl e \<Rightarrow> Inl e
      | Inr l3 \<Rightarrow>
          Inr (s\<lparr>layers := l3,
                 inspector := al_set 11 contact (al_set 10 (Panel txt) (inspector s))\<rparr>))))"

text \<open>
  The four sites, each with the labels its function builds and hands to
  \<^verbatim>\<open>configureExample\<close>. The outline drawn at Dammam paints four geometries (the radar, the
  power unit, the control station, the launchers) with widths and colours; the coordinates
  of the polygons are left out. \<^verbatim>\<open>mapPanel.addLayer\<close> appends the layer to the map's list; the
  script gives it no name. A quotation mark inside a label is written as a backquote.
\<close>

definition dammam_outline :: layer where
  "dammam_outline = Map_Layer
     (Painted_outline
        [(''radar'', 5, 1), (''power'', 5, 2), (''control'', 5, 3), (''launchers'', 5, 0)])
     \<lparr>vis_min = [0], vis_max = [3], vis_opacity = None,
       vis_palette = [''black'', ''red'', ''green'', ''blue'']\<rparr>
     None True"

definition loc1_text :: "widget list" where
  "loc1_text =
     (let lab1 = Label [Str (''This is a MIM-104 Patriot PAC-2 missile defense system stationed at an Aramco oil refinery in Dammam, Saudi Arabia. At the center of the system are three vehicles: the AN/MPQ-53 radar (red), the control station (blue), and the power generator truck (green). The black boxes indicate the missile launcher trucks.'')] [] None;
          link = Label [Str ''This video provides an overivew of the Patriot missile system.''] []
                   (Some ''https://youtu.be/NG8wF1o6r58?t=29'');
          lab2 = Label [Str (''By gradually zooming out and increasing the opacity of the Synthetic Aperture Radar layer using the slider above, it becomes clear that the radar on this missile defense system causing significant interference with the Sentinel-1 satellite.'')] [] None;
          lab3 = Label [Str (''The RFI Graph above shows that the radar was first turned on a this location around April 26th, 2021. There is a drop in intereference in July and August, suggesting that it was turned off during this period. The radar comes back online in September, and has been on ever since.'')] [] None
      in [lab1, link, lab2, lab3])"

definition loc1_function :: "ui_state \<Rightarrow> error + ui_state" where
  "loc1_function s =
     configureExample loc1_text 0.1 (s\<lparr>layers := al_add dammam_outline (layers s)\<rparr>)"

definition loc2_text :: "widget list" where
  "loc2_text =
     (let lab1 = Label [Str (''Located in Israel`s Negev Desert, the Dimona Radar Facility is a `top-secret X-band radar staffed by around 120 American technicians`.'')] []
                   (Some ''http://content.time.com/time/world/article/0,8599,1846749,00.html'');
          lab2 = Label [Str (''The radar can monitor the take-off of any aircraft or missile up to 1,500 miles away, which would give Israel an extra 60-70 seconds to react if Iran fired a missile. The radar is so powerful that Israeli officials feared that RFI would impact the accuracy of anti-tank missiles being tested nearby.'')] [] None;
          lab3 = Label [Str (''Israel`s Negev Nuclear Research Center is located in the same valley, just a few kilometers to the north. The RFI Graph above shows consistent and strong interference since 2017.'')] [] None
      in [lab1, lab2, lab3])"

definition loc2_function :: "ui_state \<Rightarrow> error + ui_state" where
  "loc2_function s = configureExample loc2_text 0.8 s"

definition loc3_text :: "widget list" where
  "loc3_text =
     (let lab1 = Label [Str (''Rostov-On-Don has seen a significant military buildup and hosts the headquarters of Russia`s 4th Air and Air Defense Forces Command. The dot indictes a facility that is likely the source of the RFI.'')] [] None;
          lab2 = Label [Str (''According to Wikimapia, this facility is operated by FEDERAL STATE UNITARY ENTERPRISE `ROSTOV-ON-DON RESEARCH INSTITUTE OF RADIO COMMUNICATIONS`'')] []
                   (Some ''https://www.openstreetmap.org/way/106283207#map=17/47.35430/39.78441'');
          lab3 = Label [Str (''Its official registration lists it as a subsidiary of the Federal Security Services of the Russian Federation (FSB). The RFI graph above shows radar activity throughout June and July 2021. You can view the facility likely causing this interference by zooming in to the blue dot and reducing the opacity using the slider.'')] [] None
      in [lab1, lab2, lab3])"

definition loc3_function :: "ui_state \<Rightarrow> error + ui_state" where
  "loc3_function s = configureExample loc3_text 0.8 s"

definition loc4_text :: "widget list" where
  "loc4_text =
     (let lab1 = Label [Str ''The White Sands Missile Range (WSMR) is a U.S. Military base located in New Mexico.''] []
                   (Some ''https://en.wikipedia.org/wiki/White_Sands_Missile_Range'');
          lab2 = Label [Str (''Patriot missiles are often tested at Launch Complex 38. The RFI graph shows significant radar activity on December 14th, 2021, and February 23rd, 2020. Smaller signatures are also visible in April and June 2021, as well as at various points since 2017.'')] [] None
      in [lab1, lab2])"

definition loc4_function :: "ui_state \<Rightarrow> error + ui_state" where
  "loc4_function s = configureExample loc4_text 0.8 s"

record location =
  lon :: real
  lat :: real
  zoom :: nat
  date :: string
  func :: "ui_state \<Rightarrow> error + ui_state"

definition locationDict :: "(string \<times> location) list" where
  "locationDict =
     [(''Dammam, Saudi Arabia'',
         \<lparr>lon = 49.949916, lat = 26.606379, zoom = 19, date = ''2022-01-01'',
           func = loc1_function\<rparr>),
      (''Dimona Radar Facility, Israel'',
         \<lparr>lon = 35.0948799, lat = 30.9685089, zoom = 11, date = ''2019-02-19'',
           func = loc2_function\<rparr>),
      (''Rostov-on-Don, Russia'',
         \<lparr>lon = 39.783387, lat = 47.354445, zoom = 11, date = ''2021-07-22'',
           func = loc3_function\<rparr>),
      (''White Sands Missile Range, USA'',
         \<lparr>lon = -106.3122, lat = 31.9735, zoom = 10, date = ''2021-12-14'',
           func = loc4_function\<rparr>)]"

text \<open>
  The callback of \<^verbatim>\<open>locationSelect\<close>, lines 533-545. A name that is not in the dictionary
  gives \<^verbatim>\<open>undefined\<close>, and reading a field of it throws; so does a date that cannot be read.
\<close>

definition locationSelect_onChange :: "string \<Rightarrow> ui_state \<Rightarrow> error + ui_state" where
  "locationSelect_onChange v s =
     (case map_of locationDict v of
        None \<Rightarrow> Inl TypeError
      | Some location \<Rightarrow>
          (let s1 = s\<lparr>map_center := Some (lon location, lat location, zoom location)\<rparr>;
               s2 = generateChart (lon location, lat location) s1
           in case parse_date (date location) of
                None \<Rightarrow> Inl TypeError
              | Some d \<Rightarrow> func location (dateSlider_setValue d s2)))"

definition locationSelect_setValue :: "string \<Rightarrow> ui_state \<Rightarrow> error + ui_state" where
  "locationSelect_setValue v s =
     locationSelect_onChange v (s\<lparr>locationSelect_value := Some v\<rparr>)"

subsection \<open>Steps 9 and 10: the start of the application (lines 557-606)\<close>

text \<open>
  The script from top to bottom, \<open>now\<close> being the current time less one week
  (line 167). The date slider is built with \<^verbatim>\<open>setValue(now)\<close>, which runs \<^verbatim>\<open>slide\<close> once;
  the inspector panel gets its ten widgets and the contact line at position 11; the chart
  is made for the test point; at last the layer at position 1 is shown.
\<close>

definition intro :: widget where
  "intro = Panel
     [Label [Str ''Bellingcat Radar Interference Tracker'']
        [(''fontSize'', ''20px''), (''fontWeight'', ''bold'')] None,
      Label [Str (''This map shows interference from ground based radar systems as red and blue streaks. Most of these are military radars. Click on the map to generate a historical graph of Radio Frequency Interference (RFI) at a particular location:'')] [] None]"

definition initial_widgets :: "widget option list" where
  "initial_widgets =
     al_set 11 contact
       (map Some
          [intro,
           Widget_var ''dateSlider'',
           Panel [Widget_var ''lon'', Widget_var ''lat''],
           Label [Str ''placeholder''] [] None,
           Label [Str ''Click on any point in the graph above to display imagery from that date''] [] None,
           Label [Str ''View Different Layers''] [(''font-size'', ''24px'')] None,
           Panel [Widget_var ''image_info'', Widget_var ''date''],
           Label [Str (''Use the dropdown below to switch between daily, monthly, and annually aggregated imagery. Annual imagery is useful for monitoring large areas over time for signs of radar activity. When a radar is spotted, monthly and daily imagery can be used for a more detailed investigation.'')] [] None,
           Panel [Label [Str ''Display imagery aggregated by:''] [] None,
                  Widget_var ''layerSelect'',
                  Label [Str ''Opacity: ''] [] None,
                  Widget_var ''opacitySlider''],
           Panel [Label [Str ''Visit Example Locations''] [(''font-size'', ''24px'')] None,
                  Widget_var ''locationSelect'']])"

definition widgets_created :: "instant \<Rightarrow> ui_state" where
  "widgets_created now =
     \<lparr>map_center = None, layers = [], inspector = [],
       layerSelect_value = ''Month'', opacitySlider_value = 1,
       date_label = format_MMMM_dd_YYYY now,
       image_info = ''You are currently viewing monthly Sentinel-1 imagery from '',
       lon_label = [], lat_label = [],
       dateSlider_value = None, locationSelect_value = None\<rparr>"

definition init_app :: "instant \<Rightarrow> error + ui_state" where
  "init_app now =
     (let s0 = widgets_created now;
          s1 = dateSlider_setValue now s0;
          s2 = s1\<lparr>map_center := Some (49.950656, 26.605644, 11)\<rparr>;
          s3 = s2\<lparr>inspector := initial_widgets\<rparr>;
          s4 = generateChart (49.950656, 26.605644) s3
      in case al_call 1 (\<lambda>l. l\<lparr>shown := True\<rparr>) (layers s4) of
           Inl e \<Rightarrow> Inl e
         | Inr ls \<Rightarrow> Inr (s4\<lparr>layers := ls\<rparr>))"

section \<open>Reading a layer\<close>

text \<open>
  The time windows a layer's object is restricted to, one for every sub-collection it is
  built from, in the order they stand in the object.
\<close>

fun collection_window :: "collection \<Rightarrow> dateRange option" where
  "collection_window COPERNICUS_S1_GRD = None"
| "collection_window (Filter f c) = collection_window c"
| "collection_window (FilterDate s e c) = Some (s, e)"

fun band_windows :: "band_collection \<Rightarrow> dateRange option list" where
  "band_windows (Select b c) = [collection_window c]"
| "band_windows (Merge x y) = band_windows x @ band_windows y"

fun image_windows :: "ee_image \<Rightarrow> dateRange option list" where
  "image_windows (Reduce_max bc) = band_windows bc"
| "image_windows (Cat xs) = concat (map image_windows xs)"

fun object_windows :: "ee_object \<Rightarrow> dateRange option list" where
  "object_windows (Collection_object c) = [collection_window c]"
| "object_windows (Image_object i) = image_windows i"
| "object_windows (Styled_point x y c f n) = []"
| "object_windows (Painted_outline ps) = []"

text \<open>
  The observations each \<^verbatim>\<open>max()\<close> of an image is handed, one list for every reduction, in
  the order the reductions stand in the image.
\<close>

fun reduction_inputs :: "image list \<Rightarrow> ee_image \<Rightarrow> (instant \<times> raster) list list" where
  "reduction_inputs archive (Reduce_max bc) = [bands_of archive bc]"
| "reduction_inputs archive (Cat xs) = concat (map (reduction_inputs archive) xs)"

definition layer_at :: "nat \<Rightarrow> ui_state \<Rightarrow> layer option" where
  "layer_at i s = al_get i (layers s)"

text \<open>
  The composite \<^verbatim>\<open>slide\<close> builds over a window, and the two sets of display parameters it
  uses, named so that statements about its layers stay short.
\<close>

definition composite :: "dateRange \<Rightarrow> ee_image" where
  "composite w = Cat
     [Reduce_max (Select ''VH'' (FilterDate (fst w) (snd w) vhA)),
      Reduce_max (Merge (Select ''VV'' (FilterDate (fst w) (snd w) vhA))
                        (Select ''VV'' (FilterDate (fst w) (snd w) vhD))),
      Reduce_max (Select ''VH'' (FilterDate (fst w) (snd w) vhD))]"

definition composite_vis :: vis_params where
  "composite_vis =
     \<lparr>vis_min = [-25, -20, -25], vis_max = [-10, 0, -10], vis_opacity = Some 0.8,
       vis_palette = []\<rparr>"

definition daily_vis :: vis_params where
  "daily_vis =
     \<lparr>vis_min = [-25, -20, -25], vis_max = [0, 10, 0], vis_opacity = Some 0.8,
       vis_palette = []\<rparr>"

section \<open>What a layer shows over an archive\<close>

text \<open>
  The sub-collections said with one condition each: the observations with both
  polarisations taken in interferometric wide swath mode, and among them the ascending and
  the descending passes.
\<close>

definition dual_pol_iw :: "image \<Rightarrow> bool" where
  "dual_pol_iw im =
     (''VH'' \<in> set (transmitterReceiverPolarisation im) \<and>
      ''VV'' \<in> set (transmitterReceiverPolarisation im) \<and>
      instrumentMode im = ''IW'')"

definition ascending :: "image \<Rightarrow> bool" where
  "ascending im = (orbitProperties_pass im = ''ASCENDING'')"

definition descending :: "image \<Rightarrow> bool" where
  "descending im = (orbitProperties_pass im = ''DESCENDING'')"

definition values_at :: "image list \<Rightarrow> (image \<Rightarrow> bool) \<Rightarrow> string \<Rightarrow> dateRange \<Rightarrow> pixel \<Rightarrow> real list" where
  "values_at archive P b w p =
     [v. im \<leftarrow> archive, dual_pol_iw im \<and> P im \<and> in_range w (system_time_start im),
         Some r \<leftarrow> [bands im b], Some v \<leftarrow> [r p]]"

definition pixel_max :: "image list \<Rightarrow> (image \<Rightarrow> bool) \<Rightarrow> string \<Rightarrow> dateRange \<Rightarrow> raster" where
  "pixel_max archive P b w p = max_list (values_at archive P b w p)"

text \<open>The bands of a layer that holds an image, and the images of one that holds a collection.\<close>

definition layer_bands :: "image list \<Rightarrow> layer \<Rightarrow> raster list option" where
  "layer_bands archive l =
     (case eeObject l of Image_object i \<Rightarrow> Some (image_bands archive i) | _ \<Rightarrow> None)"

definition layer_images :: "image list \<Rightarrow> layer \<Rightarrow> image list option" where
  "layer_images archive l =
     (case eeObject l of Collection_object c \<Rightarrow> Some (images_of archive c) | _ \<Rightarrow> None)"

text \<open>
  A small archive to compute on: every observation has both polarisations, and a value at
  the pixel \<open>(0, 0)\<close> only.
\<close>

definition obs :: "instant \<Rightarrow> string \<Rightarrow> real \<Rightarrow> real \<Rightarrow> image" where
  "obs t pass vhv vvv =
     \<lparr>system_time_start = t,
       transmitterReceiverPolarisation = [''VV'', ''VH''],
       instrumentMode = ''IW'',
       orbitProperties_pass = pass,
       bands = (\<lambda>b. if b = ''VH'' then Some (\<lambda>p. if p = (0, 0) then Some vhv else None)
                     else if b = ''VV'' then Some (\<lambda>p. if p = (0, 0) then Some vvv else None)
                     else None)\<rparr>"

definition sample_archive :: "image list" where
  "sample_archive =
     [obs (utc_ms 2018 3 5) ''ASCENDING'' (-20) (-12),
      obs (utc_ms 2018 6 2) ''ASCENDING'' (-18) (-11),
      obs (utc_ms 2018 6 10) ''DESCENDING'' (-3) (-9),
      obs (utc_ms 2018 6 20) ''ASCENDING'' (-7) (-10),
      obs (utc_ms 2019 1 1) ''DESCENDING'' 4 5]"

section \<open>Reference points for the statements\<close>

text \<open>The application as the script leaves it when run on the first of January 2022.\<close>

definition app_started :: ui_state where
  "app_started = (case init_app (utc_ms 2022 1 1) of Inr s \<Rightarrow> s | Inl e \<Rightarrow> widgets_created 0)"

text \<open>
  A date change said in the spec's words (section 4.4, \<^verbatim>\<open>onDateChange\<close>): the three layers are
  computed again for the calendar windows that hold the new anchor date, the granularity
  selected stays the visible one, and the date shown is the new date. Nothing else changes.
\<close>

definition granularity_layer :: "string \<Rightarrow> ee_object \<Rightarrow> vis_params \<Rightarrow> string \<Rightarrow> layer" where
  "granularity_layer nm obj vis selected =
     \<lparr>eeObject = obj, visParams = vis, name = Some nm, shown = (nm = selected), opacity = 1\<rparr>"

definition onDateChange :: "instant \<Rightarrow> ui_state \<Rightarrow> ui_state" where
  "onDateChange newAnchorDate s =
     s\<lparr>dateSlider_value := Some (canonical_window day_unit newAnchorDate),
       date_label := format_MMMM_dd_YYYY newAnchorDate,
       layers :=
         [Some (granularity_layer ''Day''
                  (Collection_object
                     (FilterDate (fst (canonical_window day_unit newAnchorDate))
                        (snd (canonical_window day_unit newAnchorDate)) vh))
                  daily_vis (layerSelect_value s)),
          Some (granularity_layer ''Month''
                  (Image_object (composite (canonical_window month_unit newAnchorDate)))
                  composite_vis (layerSelect_value s)),
          Some (granularity_layer ''Year''
                  (Image_object (composite (canonical_window year_unit newAnchorDate)))
                  composite_vis (layerSelect_value s))]
         @ drop 3 (layers s)\<rparr>"

text \<open>
  The chart and the marker \<^verbatim>\<open>generateChart\<close> builds for a point, named for the statements.
\<close>

definition rfiChart_at :: "real \<times> real \<Rightarrow> chart" where
  "rfiChart_at coords =
     \<lparr>series_collection = Select ''VH'' vh,
       series_region = coords,
       series_reducer = Reducer_max,
       series_scale = 500,
       chart_title =
         [Str ''Radio Frequency Interference at (lon:'', ToFixed2 (fst coords),
          Str '', lat:'', ToFixed2 (snd coords), Str '')''],
       vAxis_title = ''VH '',
       lineWidth = 2,
       series_option = ''Area of Interest'',
       onClick = Some ''getDate''\<rparr>"

definition dot_at :: "real \<times> real \<Rightarrow> layer" where
  "dot_at coords =
     \<lparr>eeObject = Styled_point (fst coords) (snd coords) ''black'' ''#00FFFF'' 7,
       visParams = \<lparr>vis_min = [], vis_max = [], vis_opacity = None, vis_palette = []\<rparr>,
       name = Some ''clicked location'', shown = True, opacity = 1\<rparr>"

text \<open>The application after the user has selected Year, and after a visit to Dammam.\<close>

definition year_selected :: ui_state where
  "year_selected = layerSelect_setValue ''Year'' app_started"

definition after_dammam :: ui_state where
  "after_dammam =
     (case locationSelect_setValue ''Dammam, Saudi Arabia'' app_started of
        Inr s \<Rightarrow> s | Inl e \<Rightarrow> app_started)"

text \<open>A window that holds no observation of the collection \<^verbatim>\<open>vh\<close>.\<close>

definition window_empty :: "image list \<Rightarrow> dateRange \<Rightarrow> bool" where
  "window_empty archive w = (images_of archive (FilterDate (fst w) (snd w) vh) = [])"

section \<open>The series behind the chart\<close>

text \<open>
  Modelled from the spec: \<^verbatim>\<open>ui.Chart.image.series\<close> is part of the platform and not in the
  repository. Section 4.3 of the spec (\<^verbatim>\<open>extractSeries\<close>) has it go through the collection in
  order and, for every observation, reduce the band over the disc of the sample radius
  around the point with the maximum; an observation with no value there gives no entry.
  Which pixels the disc around a point holds is geometry of the platform and is a parameter
  here (\<open>disc\<close>). The script hands over 500 as the fourth argument.
\<close>

definition region_max :: "(real \<times> real \<Rightarrow> real \<Rightarrow> pixel list) \<Rightarrow> raster \<Rightarrow> real \<times> real \<Rightarrow> real \<Rightarrow> real option" where
  "region_max disc r point sampleRadius = max_list (List.map_filter r (disc point sampleRadius))"

definition extractSeries ::
  "(real \<times> real \<Rightarrow> real \<Rightarrow> pixel list) \<Rightarrow> (instant \<times> raster) list \<Rightarrow> real \<times> real \<Rightarrow> real
     \<Rightarrow> (instant \<times> real) list" where
  "extractSeries disc vhCollection point sampleRadius =
     List.map_filter
       (\<lambda>(t, r). map_option (Pair t) (region_max disc r point sampleRadius)) vhCollection"

definition chart_data ::
  "(real \<times> real \<Rightarrow> real \<Rightarrow> pixel list) \<Rightarrow> image list \<Rightarrow> chart \<Rightarrow> (instant \<times> real) list" where
  "chart_data disc archive c =
     (case series_reducer c of
        Reducer_max \<Rightarrow>
          extractSeries disc (bands_of archive (series_collection c))
            (series_region c) (series_scale c))"

definition covered :: "(real \<times> real \<Rightarrow> real \<Rightarrow> pixel list) \<Rightarrow> real \<times> real \<Rightarrow> real \<Rightarrow> image \<Rightarrow> real option" where
  "covered disc point sampleRadius im =
     (case bands im ''VH'' of None \<Rightarrow> None
      | Some r \<Rightarrow> region_max disc r point sampleRadius)"

definition rfi_series ::
  "(real \<times> real \<Rightarrow> real \<Rightarrow> pixel list) \<Rightarrow> image list \<Rightarrow> ui_state \<Rightarrow> (instant \<times> real) list" where
  "rfi_series disc archive s =
     (case al_get 3 (inspector s) of
        Some (Chart c) \<Rightarrow> chart_data disc archive c
      | _ \<Rightarrow> [])"

text \<open>An archive whose second observation has no value anywhere.\<close>

definition patchy_archive :: "image list" where
  "patchy_archive =
     [obs (utc_ms 2018 3 5) ''ASCENDING'' (-20) (-12),
      (obs (utc_ms 2018 6 2) ''ASCENDING'' 0 0)\<lparr>bands := (\<lambda>b. Some (\<lambda>p. None))\<rparr>,
      obs (utc_ms 2018 6 10) ''DESCENDING'' (-3) (-9)]"

text \<open>An archive with two observations of the same instant.\<close>

definition twin_archive :: "image list" where
  "twin_archive =
     [obs (utc_ms 2018 6 10) ''ASCENDING'' (-20) (-12),
      obs (utc_ms 2018 6 10) ''DESCENDING'' (-3) (-9)]"

section \<open>Facts about the calendar\<close>

lemma div_step:
  fixes y k :: int
  assumes "0 < k"
  shows "y div k = (y - 1) div k + (if y mod k = 0 then 1 else 0)"
proof (cases "y mod k = 0")
  case True
  have "y = k * (y div k)"
    using True mult_div_mod_eq [of k y] by simp
  then have "y - 1 = k * (y div k - 1) + (k - 1)"
    by (simp add: algebra_simps)
  then have "(y - 1) div k = y div k - 1"
    using assms by (intro int_div_pos_eq [where r = "k - 1"]) auto
  with True show ?thesis by simp
next
  case False
  have r: "0 \<le> y mod k" "y mod k < k" using assms by simp_all
  have "y - 1 = k * (y div k) + (y mod k - 1)"
    using mult_div_mod_eq [of k y] by simp
  then have "(y - 1) div k = y div k"
    using assms r False by (intro int_div_pos_eq [where r = "y mod k - 1"]) auto
  with False show ?thesis by simp
qed

lemma mod_100_4: "(y::int) mod 100 = 0 \<Longrightarrow> y mod 4 = 0"
proof -
  assume "y mod 100 = 0"
  then obtain k where "y = 100 * k" by (auto simp: mod_eq_0_iff_dvd)
  then have "y = 4 * (25 * k)" by simp
  then show ?thesis by (simp only: mod_mult_self1_is_0)
qed

lemma mod_400_100: "(y::int) mod 400 = 0 \<Longrightarrow> y mod 100 = 0"
proof -
  assume "y mod 400 = 0"
  then obtain k where "y = 400 * k" by (auto simp: mod_eq_0_iff_dvd)
  then have "y = 100 * (4 * k)" by simp
  then show ?thesis by (simp only: mod_mult_self1_is_0)
qed

lemma leaps_step: "leaps_before (y + 1) = leaps_before y + (if is_leap y then 1 else 0)"
proof -
  define a where "a = (y - 1) div 4"
  define b where "b = (y - 1) div 100"
  define c where "c = (y - 1) div 400"
  have d4: "y div 4 = a + (if y mod 4 = 0 then 1 else 0)"
    unfolding a_def by (rule div_step) simp
  have d100: "y div 100 = b + (if y mod 100 = 0 then 1 else 0)"
    unfolding b_def by (rule div_step) simp
  have d400: "y div 400 = c + (if y mod 400 = 0 then 1 else 0)"
    unfolding c_def by (rule div_step) simp
  have l: "leaps_before y = a - b + c"
    by (simp add: leaps_before_def a_def b_def c_def)
  have "leaps_before (y + 1) = y div 4 - y div 100 + y div 400"
    by (simp add: leaps_before_def)
  also have "\<dots> = (a - b + c) + (if is_leap y then 1 else 0)"
    unfolding d4 d100 d400 is_leap_def
    using mod_100_4 [of y] mod_400_100 [of y] by (cases "y mod 400 = 0"; cases "y mod 100 = 0"; cases "y mod 4 = 0"; simp)
  finally show ?thesis by (simp only: l)
qed


lemma days_before_year_Suc: "days_before_year (y + 1) = days_before_year y + days_in_year y"
  by (simp add: days_before_year_def leaps_step days_in_year_def)

lemma days_before_year_pred: "days_before_year (y - 1) = days_before_year y - days_in_year (y - 1)"
  using days_before_year_Suc [of "y - 1"] by simp

lemma find_year_spec:
  "find_year y d = (y', d') \<Longrightarrow>
     days_before_year y + d = days_before_year y' + d' \<and> 0 \<le> d' \<and> d' < days_in_year y'"
proof (induction y d rule: find_year.induct)
  case (1 y d)
  show ?case
  proof (cases "d < 0")
    case True
    with "1.prems" have "find_year (y - 1) (d + days_in_year (y - 1)) = (y', d')"
      by (subst (asm) find_year.simps) simp
    from "1.IH"(1) [OF True this] show ?thesis
      by (simp add: days_before_year_pred)
  next
    case False
    show ?thesis
    proof (cases "days_in_year y \<le> d")
      case True
      with False "1.prems" have "find_year (y + 1) (d - days_in_year y) = (y', d')"
        by (subst (asm) find_year.simps) simp
      from "1.IH"(2) [OF False True this] show ?thesis
        by (simp add: days_before_year_Suc)
    next
      case ge: False
      with False "1.prems" have "y' = y \<and> d' = d"
        by (subst (asm) find_year.simps) simp
      with False ge show ?thesis by simp
    qed
  qed
qed

lemma days_before_year_1970: "days_before_year 1970 = 0"
  by (simp add: days_before_year_def)

lemma dbm_1: "days_before_month y 1 = 0" "days_before_month y (Suc 0) = 0"
  by (simp_all add: days_before_month_def)

lemma dbm_Suc: "1 \<le> m \<Longrightarrow> days_before_month y (Suc m) = days_before_month y m + days_in_month y m"
  by (simp add: days_before_month_def)

lemma dbm_12: "days_before_month y 12 + 31 = days_in_year y"
  by (simp add: days_before_month_def days_in_year_def days_in_month_def upt_rec [of _ "numeral _"] upt_rec [of 1])

lemma days_in_month_12: "days_in_month y 12 = 31"
  by (simp add: days_in_month_def)

lemma find_month_spec:
  "find_month y m d = (m', d') \<Longrightarrow> 1 \<le> m \<Longrightarrow> m \<le> 12 \<Longrightarrow> 0 \<le> d \<Longrightarrow>
     days_before_month y m + d < days_in_year y \<Longrightarrow>
     days_before_month y m + d = days_before_month y m' + d' \<and>
     1 \<le> m' \<and> m' \<le> 12 \<and> 0 \<le> d' \<and> d' < days_in_month y m'"
proof (induction y m d rule: find_month.induct)
  case (1 y m d)
  show ?case
  proof (cases "m < 12 \<and> days_in_month y m \<le> d")
    case True
    with "1.prems"(1) have eq: "find_month y (Suc m) (d - days_in_month y m) = (m', d')"
      by (subst (asm) find_month.simps) simp
    have "days_before_month y (Suc m) + (d - days_in_month y m) = days_before_month y m + d"
      using "1.prems"(2) by (simp add: dbm_Suc)
    with "1.IH" [OF True eq] True "1.prems" show ?thesis by simp
  next
    case False
    with "1.prems"(1) have eq: "m' = m \<and> d' = d"
      by (subst (asm) find_month.simps) simp
    show ?thesis
    proof (cases "m < 12")
      case True
      with False eq "1.prems" show ?thesis by simp
    next
      case m12: False
      with "1.prems" have "m = 12" by simp
      with eq "1.prems" dbm_12 [of y] show ?thesis by (simp add: days_in_month_12)
    qed
  qed
qed

text \<open>The fields of an instant, with what is known of them.\<close>

lemma civil_fields:
  assumes "find_year 1970 (t div msPerDay) = (y, doy)" and "find_month y 1 doy = (m, mday)"
  shows "t div msPerDay = days_before_year y + days_before_month y m + mday"
    and "0 \<le> mday" and "mday < days_in_month y m" and "1 \<le> m" and "m \<le> 12"
    and "doy = days_before_month y m + mday"
proof -
  from find_year_spec [OF assms(1)]
  have y: "t div msPerDay = days_before_year y + doy" "0 \<le> doy" "doy < days_in_year y"
    by (simp_all add: days_before_year_1970)
  from find_month_spec [OF assms(2)] y
  have m: "doy = days_before_month y m + mday" "1 \<le> m" "m \<le> 12" "0 \<le> mday"
      "mday < days_in_month y m"
    by (simp_all add: dbm_1)
  from y m show "t div msPerDay = days_before_year y + days_before_month y m + mday"
    and "0 \<le> mday" and "mday < days_in_month y m" and "1 \<le> m" and "m \<le> 12"
    and "doy = days_before_month y m + mday"
    by simp_all
qed

lemma ms_window:
  assumes "a \<le> t div msPerDay" and "t div msPerDay < b"
  shows "in_range (a * msPerDay, b * msPerDay) t"
proof -
  have pos: "(0::int) < msPerDay" by (simp add: msPerDay_def)
  have r: "0 \<le> t mod msPerDay" "t mod msPerDay < msPerDay"
    using pos by simp_all
  have e: "t div msPerDay * msPerDay + t mod msPerDay = t"
    by (rule div_mult_mod_eq)
  have "a * msPerDay \<le> t div msPerDay * msPerDay"
    using assms(1) pos by (simp add: mult_right_mono)
  with e r have lo: "a * msPerDay \<le> t" by linarith
  have "(t div msPerDay + 1) * msPerDay \<le> b * msPerDay"
    using assms(2) pos by (intro mult_right_mono) simp_all
  then have "t div msPerDay * msPerDay + msPerDay \<le> b * msPerDay"
    by (simp add: distrib_right)
  with e r have hi: "t < b * msPerDay" by linarith
  from lo hi show ?thesis by (simp add: in_range_def)
qed

lemma getRange_contains: "in_range (getRange u t) t"
proof -
  obtain y doy where fy: "find_year 1970 (t div msPerDay) = (y, doy)"
    by (cases "find_year 1970 (t div msPerDay)")
  obtain m mday where fm: "find_month y 1 doy = (m, mday)"
    by (cases "find_month y 1 doy")
  note f = civil_fields [OF fy fm]
  from fm have fm': "find_month y (Suc 0) doy = (m, mday)" by simp
  from find_year_spec [OF fy] have y: "0 \<le> doy" "doy < days_in_year y" by simp_all
  show ?thesis
  proof (cases u)
    case year_unit
    have "in_range ((t div msPerDay - doy) * msPerDay,
        (t div msPerDay - doy + days_in_year y) * msPerDay) t"
      using y by (intro ms_window) simp_all
    with year_unit show ?thesis by (simp add: getRange_def Let_def fy fm')
  next
    case month_unit
    have "in_range ((t div msPerDay - mday) * msPerDay,
        (t div msPerDay - mday + days_in_month y m) * msPerDay) t"
      using f(2,3) by (intro ms_window) simp_all
    with month_unit show ?thesis by (simp add: getRange_def Let_def fy fm')
  next
    case day_unit
    have "in_range ((t div msPerDay) * msPerDay, (t div msPerDay + 1) * msPerDay) t"
      by (intro ms_window) simp_all
    with day_unit show ?thesis by (simp add: getRange_def Let_def fy fm')
  qed
qed


lemma getRange_canonical: "getRange u t = canonical_window u t"
proof -
  obtain y doy where fy: "find_year 1970 (t div msPerDay) = (y, doy)"
    by (cases "find_year 1970 (t div msPerDay)")
  obtain m mday where fm: "find_month y 1 doy = (m, mday)"
    by (cases "find_month y 1 doy")
  note f = civil_fields [OF fy fm]
  from fm have fm': "find_month y (Suc 0) doy = (m, mday)" by simp
  have c: "civil t = (y, m, mday + 1)"
    by (simp add: civil_def fy fm')
  have e1: "t div msPerDay - doy = days_before_year y"
    using f(1,6) by simp
  have e2: "t div msPerDay - mday = days_before_year y + days_before_month y m"
    using f(1) by simp
  have e3: "t div msPerDay = days_before_year y + days_before_month y m + mday"
    using f(1) by simp
  show ?thesis
  proof (cases u)
    case year_unit
    have "getRange year_unit t = ((t div msPerDay - doy) * msPerDay,
        (t div msPerDay - doy + days_in_year y) * msPerDay)"
      by (simp add: getRange_def Let_def fy fm')
    moreover have "canonical_window year_unit t =
        (days_before_year y * msPerDay, days_before_year (y + 1) * msPerDay)"
      by (simp add: canonical_window_def c utc_ms_def dbm_1)
    ultimately show ?thesis
      unfolding year_unit by (simp only: e1 days_before_year_Suc)
  next
    case month_unit
    have g: "getRange month_unit t = ((t div msPerDay - mday) * msPerDay,
        (t div msPerDay - mday + days_in_month y m) * msPerDay)"
      by (simp add: getRange_def Let_def fy fm')
    have "canonical_window month_unit t =
        ((days_before_year y + days_before_month y m) * msPerDay,
         (days_before_year y + days_before_month y m + days_in_month y m) * msPerDay)"
    proof (cases "m = 12")
      case True
      have "days_before_year (y + 1) = days_before_year y + days_before_month y 12 + 31"
        using dbm_12 [of y] by (simp add: days_before_year_Suc)
      with True show ?thesis
        by (simp add: canonical_window_def c utc_ms_def dbm_1 days_in_month_12)
    next
      case False
      with f(4) show ?thesis
        by (simp add: canonical_window_def c utc_ms_def dbm_Suc)
    qed
    with g show ?thesis
      unfolding month_unit by (simp only: e2)
  next
    case day_unit
    have "getRange day_unit t = (t div msPerDay * msPerDay, (t div msPerDay + 1) * msPerDay)"
      by (simp add: getRange_def Let_def fy fm')
    moreover have "canonical_window day_unit t =
        ((days_before_year y + days_before_month y m + mday) * msPerDay,
         (days_before_year y + days_before_month y m + mday + 1) * msPerDay)"
      by (simp add: canonical_window_def c utc_ms_def)
    ultimately show ?thesis
      unfolding day_unit by (simp only: e3)
  qed
qed


text \<open>
  The window of a unit holds exactly the instants that share the calendar fields of the
  unit with the date it was made for; and the fields of midnight of a date are that date.
\<close>

lemma days_in_year_pos: "0 < days_in_year y"
  by (simp add: days_in_year_def)

lemma days_in_month_pos: "0 < days_in_month y m"
  by (simp add: days_in_month_def)

lemma days_before_year_mono: "y \<le> y' \<Longrightarrow> days_before_year y \<le> days_before_year y'"
proof (induction y' rule: int_ge_induct)
  case base
  show ?case by simp
next
  case (step i)
  then show ?case
    using days_in_year_pos [of i] by (simp add: days_before_year_Suc)
qed

lemma year_unique:
  assumes "days_before_year y + d = days_before_year y' + d'"
    and "0 \<le> d" "d < days_in_year y" "0 \<le> d'" "d' < days_in_year y'"
  shows "y = y' \<and> d = d'"
proof -
  have "\<not> y < y'"
  proof
    assume "y < y'"
    then have "days_before_year (y + 1) \<le> days_before_year y'"
      by (intro days_before_year_mono) simp
    with assms show False by (simp add: days_before_year_Suc)
  qed
  moreover have "\<not> y' < y"
  proof
    assume "y' < y"
    then have "days_before_year (y' + 1) \<le> days_before_year y"
      by (intro days_before_year_mono) simp
    with assms show False by (simp add: days_before_year_Suc)
  qed
  ultimately have "y = y'" by simp
  with assms show ?thesis by simp
qed

lemma days_before_month_mono:
  assumes "1 \<le> m" and "m \<le> m'"
  shows "days_before_month y m \<le> days_before_month y m'"
  using assms(2)
proof (induction rule: dec_induct)
  case base
  show ?case by simp
next
  case (step n)
  then show ?case
    using assms(1) days_in_month_pos [of y n] by (simp add: dbm_Suc)
qed

lemma month_within_year:
  assumes "1 \<le> m" and "m \<le> 12"
  shows "days_before_month y m + days_in_month y m \<le> days_in_year y"
proof (cases "m = 12")
  case True
  then show ?thesis using dbm_12 [of y] by (simp add: days_in_month_12)
next
  case False
  with assms have "days_before_month y (Suc m) \<le> days_before_month y 12"
    by (intro days_before_month_mono) simp_all
  with assms(1) dbm_12 [of y] show ?thesis by (simp add: dbm_Suc)
qed

lemma month_unique:
  assumes "days_before_month y m + d = days_before_month y m' + d'"
    and "1 \<le> m" "1 \<le> m'" "0 \<le> d" "d < days_in_month y m" "0 \<le> d'" "d' < days_in_month y m'"
  shows "m = m' \<and> d = d'"
proof -
  have "\<not> m < m'"
  proof
    assume "m < m'"
    then have "days_before_month y (Suc m) \<le> days_before_month y m'"
      using assms(2) by (intro days_before_month_mono) simp_all
    with assms show False by (simp add: dbm_Suc)
  qed
  moreover have "\<not> m' < m"
  proof
    assume "m' < m"
    then have "days_before_month y (Suc m') \<le> days_before_month y m"
      using assms(3) by (intro days_before_month_mono) simp_all
    with assms show False by (simp add: dbm_Suc)
  qed
  ultimately have "m = m'" by simp
  with assms show ?thesis by simp
qed

text \<open>The calendar fields of an instant determine its day, and the other way round.\<close>

lemma civil_decomposition:
  obtains y m k where "civil t = (y, m, k + 1)"
    and "t div msPerDay = days_before_year y + days_before_month y m + k"
    and "0 \<le> k" and "k < days_in_month y m" and "1 \<le> m" and "m \<le> 12"
    and "0 \<le> days_before_month y m + k" and "days_before_month y m + k < days_in_year y"
proof -
  obtain y doy where fy: "find_year 1970 (t div msPerDay) = (y, doy)"
    by (cases "find_year 1970 (t div msPerDay)")
  obtain m k where fm: "find_month y 1 doy = (m, k)"
    by (cases "find_month y 1 doy")
  note f = civil_fields [OF fy fm]
  from fm have fm': "find_month y (Suc 0) doy = (m, k)" by simp
  have c: "civil t = (y, m, k + 1)"
    by (simp add: civil_def fy fm')
  from find_year_spec [OF fy] f(6)
  have "0 \<le> days_before_month y m + k" "days_before_month y m + k < days_in_year y"
    by simp_all
  with c f show ?thesis by (intro that [of y m k]) simp_all
qed

lemma civil_eq_iff_same_day: "civil t' = civil t \<longleftrightarrow> t' div msPerDay = t div msPerDay"
proof
  assume e: "civil t' = civil t"
  obtain y m k where a: "civil t = (y, m, k + 1)"
      "t div msPerDay = days_before_year y + days_before_month y m + k"
    by (rule civil_decomposition [of t]) blast
  obtain y' m' k' where b: "civil t' = (y', m', k' + 1)"
      "t' div msPerDay = days_before_year y' + days_before_month y' m' + k'"
    by (rule civil_decomposition [of t']) blast
  from e a(1) b(1) have "y' = y" "m' = m" "k' = k" by simp_all
  with a(2) b(2) show "t' div msPerDay = t div msPerDay" by simp
next
  assume "t' div msPerDay = t div msPerDay"
  then show "civil t' = civil t" by (simp add: civil_def)
qed

lemma in_day_range:
  "in_range (a * msPerDay, b * msPerDay) t \<longleftrightarrow> a \<le> t div msPerDay \<and> t div msPerDay < b"
proof
  assume "a \<le> t div msPerDay \<and> t div msPerDay < b"
  then show "in_range (a * msPerDay, b * msPerDay) t" by (simp add: ms_window)
next
  assume r: "in_range (a * msPerDay, b * msPerDay) t"
  have pos: "(0::int) < msPerDay" by (simp add: msPerDay_def)
  from r have lo: "a * msPerDay \<le> t" and hi: "t < b * msPerDay"
    by (simp_all add: in_range_def)
  have "(a * msPerDay) div msPerDay \<le> t div msPerDay"
    using lo pos by (rule zdiv_mono1)
  then have 1: "a \<le> t div msPerDay" using pos by simp
  have 2: "t div msPerDay < b"
  proof (rule ccontr)
    assume "\<not> t div msPerDay < b"
    then have "b * msPerDay \<le> t div msPerDay * msPerDay"
      using pos by (simp add: mult_right_mono)
    moreover have "t div msPerDay * msPerDay \<le> t"
      using div_mult_mod_eq [of t msPerDay] pos_mod_sign [OF pos, of t] by linarith
    ultimately show False using hi by simp
  qed
  from 1 2 show "a \<le> t div msPerDay \<and> t div msPerDay < b" by simp
qed

lemma canonical_window_days:
  assumes "civil t = (y, m, k + 1)"
  shows "canonical_window year_unit t
      = (days_before_year y * msPerDay, days_before_year (y + 1) * msPerDay)"
    and "1 \<le> m \<Longrightarrow> m \<le> 12 \<Longrightarrow> canonical_window month_unit t
      = ((days_before_year y + days_before_month y m) * msPerDay,
         (days_before_year y + days_before_month y m + days_in_month y m) * msPerDay)"
    and "canonical_window day_unit t
      = ((days_before_year y + days_before_month y m + k) * msPerDay,
         (days_before_year y + days_before_month y m + k + 1) * msPerDay)"
proof -
  show "canonical_window year_unit t
      = (days_before_year y * msPerDay, days_before_year (y + 1) * msPerDay)"
    by (simp add: canonical_window_def assms utc_ms_def dbm_1)
  show "canonical_window day_unit t
      = ((days_before_year y + days_before_month y m + k) * msPerDay,
         (days_before_year y + days_before_month y m + k + 1) * msPerDay)"
    by (simp add: canonical_window_def assms utc_ms_def)
  show "canonical_window month_unit t
      = ((days_before_year y + days_before_month y m) * msPerDay,
         (days_before_year y + days_before_month y m + days_in_month y m) * msPerDay)"
    if "1 \<le> m" "m \<le> 12"
  proof (cases "m = 12")
    case True
    have "days_before_year (y + 1) = days_before_year y + days_before_month y 12 + 31"
      using dbm_12 [of y] by (simp add: days_before_year_Suc)
    with True show ?thesis
      by (simp add: canonical_window_def assms utc_ms_def dbm_1 days_in_month_12)
  next
    case False
    with that show ?thesis
      by (simp add: canonical_window_def assms utc_ms_def dbm_Suc)
  qed
qed

lemma window_is_calendar_unit: "in_range (canonical_window u t) t' \<longleftrightarrow> same_unit u t t'"
proof -
  obtain y m k where a: "civil t = (y, m, k + 1)"
      "t div msPerDay = days_before_year y + days_before_month y m + k"
      "0 \<le> k" "k < days_in_month y m" "1 \<le> m" "m \<le> 12"
      "0 \<le> days_before_month y m + k" "days_before_month y m + k < days_in_year y"
    by (rule civil_decomposition [of t]) blast
  obtain y' m' k' where b: "civil t' = (y', m', k' + 1)"
      "t' div msPerDay = days_before_year y' + days_before_month y' m' + k'"
      "0 \<le> k'" "k' < days_in_month y' m'" "1 \<le> m'" "m' \<le> 12"
      "0 \<le> days_before_month y' m' + k'" "days_before_month y' m' + k' < days_in_year y'"
    by (rule civil_decomposition [of t']) blast
  note w = canonical_window_days [OF a(1)]
  show ?thesis
  proof (cases u)
    case year_unit
    have "in_range (canonical_window year_unit t) t' \<longleftrightarrow> y' = y"
    proof
      assume "in_range (canonical_window year_unit t) t'"
      then have "days_before_year y \<le> t' div msPerDay" "t' div msPerDay < days_before_year (y + 1)"
        unfolding w(1) in_day_range by simp_all
      then have "days_before_year y' + (days_before_month y' m' + k')
          = days_before_year y + (t' div msPerDay - days_before_year y)"
        "0 \<le> t' div msPerDay - days_before_year y"
        "t' div msPerDay - days_before_year y < days_in_year y"
        using b(2) by (simp_all add: days_before_year_Suc)
      from year_unique [OF this(1) b(7,8) this(2,3)] show "y' = y" by simp
    next
      assume "y' = y"
      with b(2,7,8) show "in_range (canonical_window year_unit t) t'"
        unfolding w(1) in_day_range by (simp add: days_before_year_Suc)
    qed
    with year_unit show ?thesis by (simp add: same_unit_def a(1) b(1))
  next
    case month_unit
    have "in_range (canonical_window month_unit t) t' \<longleftrightarrow> y' = y \<and> m' = m"
    proof
      assume r: "in_range (canonical_window month_unit t) t'"
      then have d: "days_before_year y + days_before_month y m \<le> t' div msPerDay"
        "t' div msPerDay < days_before_year y + days_before_month y m + days_in_month y m"
        unfolding w(2) [OF a(5,6)] in_day_range by simp_all
      have mb: "0 \<le> days_before_month y m"
        using days_before_month_mono [of 1 m y] a(5) by (simp add: dbm_1)
      have "days_before_month y m + days_in_month y m \<le> days_in_year y"
        using a(5,6) by (rule month_within_year)
      with d mb have "days_before_year y' + (days_before_month y' m' + k')
          = days_before_year y + (t' div msPerDay - days_before_year y)"
        "0 \<le> t' div msPerDay - days_before_year y"
        "t' div msPerDay - days_before_year y < days_in_year y"
        using b(2) by simp_all
      from year_unique [OF this(1) b(7,8) this(2,3)]
      have y: "y' = y" and e: "days_before_month y' m' + k' = t' div msPerDay - days_before_year y"
        by auto
      from e y d have "days_before_month y m' + k'
          = days_before_month y m + (t' div msPerDay - days_before_year y - days_before_month y m)"
        "0 \<le> t' div msPerDay - days_before_year y - days_before_month y m"
        "t' div msPerDay - days_before_year y - days_before_month y m < days_in_month y m"
        by simp_all
      from month_unique [OF this(1) b(5) a(5) b(3) b(4) [unfolded y] this(2,3)] y
      show "y' = y \<and> m' = m" by simp
    next
      assume "y' = y \<and> m' = m"
      with b(2,3,4) show "in_range (canonical_window month_unit t) t'"
        unfolding w(2) [OF a(5,6)] in_day_range by simp
    qed
    with month_unit show ?thesis by (simp add: same_unit_def a(1) b(1))
  next
    case day_unit
    have "in_range (canonical_window day_unit t) t' \<longleftrightarrow> t' div msPerDay = t div msPerDay"
      unfolding w(3) in_day_range a(2) by auto
    with day_unit show ?thesis by (simp add: same_unit_def civil_eq_iff_same_day)
  qed
qed


lemma civil_utc_ms:
  assumes "1 \<le> m" and "m \<le> 12" and "1 \<le> d" and "d \<le> days_in_month y m"
  shows "civil (utc_ms y m d) = (y, m, d)"
proof -
  let ?t = "utc_ms y m d"
  have pos: "(0::int) < msPerDay" by (simp add: msPerDay_def)
  have day: "?t div msPerDay = days_before_year y + days_before_month y m + (d - 1)"
    using pos by (simp add: utc_ms_def)
  obtain y' m' k' where b: "civil ?t = (y', m', k' + 1)"
      "?t div msPerDay = days_before_year y' + days_before_month y' m' + k'"
      "0 \<le> k'" "k' < days_in_month y' m'" "1 \<le> m'" "m' \<le> 12"
      "0 \<le> days_before_month y' m' + k'" "days_before_month y' m' + k' < days_in_year y'"
    by (rule civil_decomposition [of ?t]) blast
  have mb: "0 \<le> days_before_month y m"
    using days_before_month_mono [of 1 m y] assms(1) by (simp add: dbm_1)
  have in_year: "0 \<le> days_before_month y m + (d - 1)"
      "days_before_month y m + (d - 1) < days_in_year y"
    using mb assms(3,4) month_within_year [OF assms(1,2), of y] by simp_all
  have "days_before_year y' + (days_before_month y' m' + k')
      = days_before_year y + (days_before_month y m + (d - 1))"
    using b(2) day by simp
  from year_unique [OF this b(7,8) in_year]
  have y: "y' = y" and e: "days_before_month y' m' + k' = days_before_month y m + (d - 1)"
    by auto
  have "days_before_month y m' + k' = days_before_month y m + (d - 1)"
    using e y by simp
  from month_unique [OF this b(5) assms(1) b(3) b(4) [unfolded y]] assms(3,4)
  have "m' = m" "k' = d - 1" by simp_all
  with b(1) y show ?thesis by simp
qed


section \<open>Layers after a date change\<close>

lemma al_get_set_same: "al_get i (al_set i x xs) = Some x"
  by (simp add: al_get_def al_set_def nth_append)

lemma al_get_set_other: "i \<noteq> j \<Longrightarrow> al_get i (al_set j x xs) = al_get i xs"
  by (auto simp: al_get_def al_set_def nth_append nth_Cons')

lemma slide_layer_0:
  "layer_at 0 (slide r s) = Some (Map_Layer
      (Collection_object (FilterDate (fst r) (snd r) vh)) daily_vis
      (Some ''Day'') (''Day'' = layerSelect_value s))"
  by (simp add: layer_at_def slide_def Let_def al_get_set_same al_get_set_other daily_vis_def)

lemma slide_layer_1:
  "layer_at 1 (slide r s) = Some (Map_Layer
      (Image_object (composite (getRange month_unit (fst r)))) composite_vis
      (Some ''Month'') (''Month'' = layerSelect_value s))"
  by (simp add: layer_at_def slide_def Let_def al_get_set_same al_get_set_other
      composite_def composite_vis_def)

lemma slide_layer_2:
  "layer_at 2 (slide r s) = Some (Map_Layer
      (Image_object (composite (getRange year_unit (fst r)))) composite_vis
      (Some ''Year'') (''Year'' = layerSelect_value s))"
  by (simp add: layer_at_def slide_def Let_def al_get_set_same al_get_set_other
      composite_def composite_vis_def)

lemma composite_windows: "image_windows (composite w) = [Some w, Some w, Some w, Some w]"
  by (simp add: composite_def vhA_def vhD_def)

lemma same_day_start: "getRange u (fst (getRange day_unit t)) = getRange u t"
proof -
  have pos: "(0::int) < msPerDay" by (simp add: msPerDay_def)
  have "(t div msPerDay * msPerDay) div msPerDay = t div msPerDay"
    using pos by simp
  then show ?thesis
    by (simp add: getRange_def [of u] getRange_def [of day_unit] Let_def)
qed

lemma canonical_2018:
  "canonical_window year_unit (utc_ms 2018 6 10) = (utc_ms 2018 1 1, utc_ms 2019 1 1)"
  by code_simp


text \<open>
  C1. For every anchor date, the date change leaves three layers, named Day, Month and
  Year, whose collections are all restricted to the calendar day, the calendar month and
  the calendar year (UTC) that hold the anchor date: each window runs from the first
  instant of the unit to the first instant of the next unit, holds the anchor date, holds
  exactly the instants of the same day, month or year, and does not hold its end.
\<close>

theorem slide_windows_canonical:
  "map_option name (layer_at 0 (dateSlider_setValue a s)) = Some (Some ''Day'') \<and>
   map_option (\<lambda>l. object_windows (eeObject l)) (layer_at 0 (dateSlider_setValue a s))
     = Some [Some (canonical_window day_unit a)] \<and>
   map_option name (layer_at 1 (dateSlider_setValue a s)) = Some (Some ''Month'') \<and>
   map_option (\<lambda>l. object_windows (eeObject l)) (layer_at 1 (dateSlider_setValue a s))
     = Some (replicate 4 (Some (canonical_window month_unit a))) \<and>
   map_option name (layer_at 2 (dateSlider_setValue a s)) = Some (Some ''Year'') \<and>
   map_option (\<lambda>l. object_windows (eeObject l)) (layer_at 2 (dateSlider_setValue a s))
     = Some (replicate 4 (Some (canonical_window year_unit a))) \<and>
   in_range (canonical_window day_unit a) a \<and>
   in_range (canonical_window month_unit a) a \<and>
   in_range (canonical_window year_unit a) a \<and>
   (\<forall>u t. in_range (canonical_window u a) t = same_unit u a t) \<and>
   (\<forall>u. \<not> in_range (canonical_window u a) (snd (canonical_window u a)))"
proof -
  have w: "\<And>u. in_range (canonical_window u a) a"
    using getRange_contains [of _ a] by (simp add: getRange_canonical)
  have d: "getRange day_unit a = canonical_window day_unit a"
    by (rule getRange_canonical)
  have m: "getRange month_unit (fst (dateSlider_range a)) = canonical_window month_unit a"
    unfolding dateSlider_range_def same_day_start by (rule getRange_canonical)
  have y: "getRange year_unit (fst (dateSlider_range a)) = canonical_window year_unit a"
    unfolding dateSlider_range_def same_day_start by (rule getRange_canonical)
  have r: "dateSlider_range a = canonical_window day_unit a"
    by (simp add: dateSlider_range_def d)
  have e: "\<And>u. \<not> in_range (canonical_window u a) (snd (canonical_window u a))"
    by (simp add: in_range_def)
  have c: "\<forall>u t. in_range (canonical_window u a) t = same_unit u a t"
    by (simp add: window_is_calendar_unit)
  have l: "map_option name (layer_at 0 (dateSlider_setValue a s)) = Some (Some ''Day'') \<and>
   map_option (\<lambda>l. object_windows (eeObject l)) (layer_at 0 (dateSlider_setValue a s))
     = Some [Some (canonical_window day_unit a)] \<and>
   map_option name (layer_at 1 (dateSlider_setValue a s)) = Some (Some ''Month'') \<and>
   map_option (\<lambda>l. object_windows (eeObject l)) (layer_at 1 (dateSlider_setValue a s))
     = Some (replicate 4 (Some (canonical_window month_unit a))) \<and>
   map_option name (layer_at 2 (dateSlider_setValue a s)) = Some (Some ''Year'') \<and>
   map_option (\<lambda>l. object_windows (eeObject l)) (layer_at 2 (dateSlider_setValue a s))
     = Some (replicate 4 (Some (canonical_window year_unit a)))"
    unfolding dateSlider_setValue_def slide_layer_0 slide_layer_1 slide_layer_2 m y
    by (simp add: Map_Layer_def composite_windows vh_def r numeral_eq_Suc)
  from l w [of day_unit] w [of month_unit] w [of year_unit] c e show ?thesis
    by (intro conjI allI) blast+
qed


text \<open>The anchor date 2018-06-10: the Year layer is built over 2018-01-01 to 2019-01-01.\<close>

theorem slide_windows_canonical_witness:
  "map_option (\<lambda>l. object_windows (eeObject l))
     (layer_at 2 (dateSlider_setValue (utc_ms 2018 6 10) (widgets_created 0)))
     = Some (replicate 4 (Some (utc_ms 2018 1 1, utc_ms 2019 1 1))) \<and>
   in_range (utc_ms 2018 1 1, utc_ms 2019 1 1) (utc_ms 2018 6 10)"
  using slide_windows_canonical [of "utc_ms 2018 6 10" "widgets_created 0"]
  by (simp add: canonical_2018)

section \<open>Composites and the daily layer\<close>

lemma max_list_Max: "max_list xs = (if xs = [] then None else Some (Max (set xs)))"
proof (induction xs)
  case Nil
  show ?case by simp
next
  case (Cons x xs)
  show ?case
  proof (cases "xs = []")
    case True
    then show ?thesis by simp
  next
    case False
    with Cons show ?thesis by (simp add: max.commute)
  qed
qed

lemma max_list_cong_set: "set xs = set ys \<Longrightarrow> max_list xs = max_list ys"
  by (metis max_list_Max set_empty)

lemma images_vh:
  "images_of archive vh = filter dual_pol_iw archive"
  by (induction archive)
    (auto simp: vh_def sentinel1_def dual_pol_iw_def list_property_def string_property_def)

lemma images_window:
  "images_of archive (FilterDate (fst w) (snd w) (Filter (Filter_eq ''orbitProperties_pass'' d) vh))
     = filter (\<lambda>im. dual_pol_iw im \<and> orbitProperties_pass im = d \<and> in_range w (system_time_start im)) archive"
  by (induction archive) (auto simp: images_vh in_range_def string_property_def)

lemma band_values:
  "List.map_filter (\<lambda>r. r p) (map snd (List.map_filter
      (\<lambda>im. map_option (Pair (system_time_start im)) (bands im b)) (filter Q xs)))
   = [v. im \<leftarrow> xs, Q im, Some r \<leftarrow> [bands im b], Some v \<leftarrow> [r p]]"
  by (induction xs) (auto simp: List.map_filter_simps split: option.splits)

lemma select_values:
  "List.map_filter (\<lambda>r. r p) (map snd (bands_of archive
      (Select b (FilterDate (fst w) (snd w) (Filter (Filter_eq ''orbitProperties_pass'' d) vh)))))
    = values_at archive (\<lambda>im. orbitProperties_pass im = d) b w p"
  unfolding bands_of.simps images_window band_values values_at_def ..

lemma band_VH:
  "reduce_max (map snd (bands_of archive
      (Select b (FilterDate (fst w) (snd w) (Filter (Filter_eq ''orbitProperties_pass'' d) vh))))) p
   = pixel_max archive (\<lambda>im. orbitProperties_pass im = d) b w p"
  by (simp only: reduce_max_def pixel_max_def select_values)

lemma values_at_set:
  "set (values_at archive P b w p) =
     {v. \<exists>im r. im \<in> set archive \<and> dual_pol_iw im \<and> P im \<and> in_range w (system_time_start im)
          \<and> bands im b = Some r \<and> r p = Some v}"
proof (rule set_eqI)
  fix v
  show "v \<in> set (values_at archive P b w p) \<longleftrightarrow>
     v \<in> {v. \<exists>im r. im \<in> set archive \<and> dual_pol_iw im \<and> P im \<and> in_range w (system_time_start im)
          \<and> bands im b = Some r \<and> r p = Some v}"
  proof
    assume "v \<in> set (values_at archive P b w p)"
    then obtain im r where "im \<in> set archive" "dual_pol_iw im" "P im"
        "in_range w (system_time_start im)" "bands im b = Some r" "r p = Some v"
      by (auto simp: values_at_def split: option.splits if_splits
          intro: that [OF _ _ _ _ sym sym])
    then show "v \<in> {v. \<exists>im r. im \<in> set archive \<and> dual_pol_iw im \<and> P im \<and>
        in_range w (system_time_start im) \<and> bands im b = Some r \<and> r p = Some v}"
      by blast
  next
    assume "v \<in> {v. \<exists>im r. im \<in> set archive \<and> dual_pol_iw im \<and> P im \<and>
        in_range w (system_time_start im) \<and> bands im b = Some r \<and> r p = Some v}"
    then obtain im r where "im \<in> set archive" "dual_pol_iw im" "P im"
        "in_range w (system_time_start im)" "bands im b = Some r" "r p = Some v"
      by blast
    then show "v \<in> set (values_at archive P b w p)"
      by (auto simp: values_at_def intro!: bexI [of _ im])
  qed
qed

lemma map_filter_append: "List.map_filter f (xs @ ys) = List.map_filter f xs @ List.map_filter f ys"
  by (simp add: List.map_filter_def)

lemma band_VV:
  "reduce_max (map snd (bands_of archive
      (Merge (Select b (FilterDate (fst w) (snd w) vhA)) (Select b (FilterDate (fst w) (snd w) vhD))))) p
   = pixel_max archive (\<lambda>im. ascending im \<or> descending im) b w p"
proof -
  let ?A = "Select b (FilterDate (fst w) (snd w) vhA)"
  let ?D = "Select b (FilterDate (fst w) (snd w) vhD)"
  have a: "List.map_filter (\<lambda>r. r p) (map snd (bands_of archive ?A))
      = values_at archive ascending b w p"
    unfolding vhA_def ascending_def by (rule select_values)
  have d: "List.map_filter (\<lambda>r. r p) (map snd (bands_of archive ?D))
      = values_at archive descending b w p"
    unfolding vhD_def descending_def by (rule select_values)
  have "List.map_filter (\<lambda>r. r p) (map snd (bands_of archive (Merge ?A ?D)))
    = values_at archive ascending b w p @ values_at archive descending b w p"
    by (simp only: bands_of.simps(2) map_append map_filter_append a d)
  moreover have "set (values_at archive ascending b w p @ values_at archive descending b w p)
    = set (values_at archive (\<lambda>im. ascending im \<or> descending im) b w p)"
    unfolding set_append values_at_set by blast
  then have "max_list (values_at archive ascending b w p @ values_at archive descending b w p)
    = max_list (values_at archive (\<lambda>im. ascending im \<or> descending im) b w p)"
    by (rule max_list_cong_set)
  ultimately show ?thesis
    by (simp only: reduce_max_def pixel_max_def)
qed

lemma composite_bands:
  "image_bands archive (composite w) =
     [pixel_max archive ascending ''VH'' w,
      pixel_max archive (\<lambda>im. ascending im \<or> descending im) ''VV'' w,
      pixel_max archive descending ''VH'' w]"
proof -
  have 1: "reduce_max (map snd (bands_of archive (Select ''VH'' (FilterDate (fst w) (snd w) vhA))))
      = pixel_max archive ascending ''VH'' w"
    unfolding vhA_def ascending_def by (rule ext) (rule band_VH)
  have 3: "reduce_max (map snd (bands_of archive (Select ''VH'' (FilterDate (fst w) (snd w) vhD))))
      = pixel_max archive descending ''VH'' w"
    unfolding vhD_def descending_def by (rule ext) (rule band_VH)
  have 2: "reduce_max (map snd (bands_of archive
      (Merge (Select ''VV'' (FilterDate (fst w) (snd w) vhA))
             (Select ''VV'' (FilterDate (fst w) (snd w) vhD)))))
      = pixel_max archive (\<lambda>im. ascending im \<or> descending im) ''VV'' w"
    by (rule ext) (rule band_VV)
  show ?thesis
    unfolding composite_def image_bands.simps list.map concat.simps append.simps 1 2 3 ..
qed

lemma pixel_max_Some:
  "pixel_max archive P b w p = Some v \<longleftrightarrow>
     v \<in> set (values_at archive P b w p) \<and> (\<forall>x \<in> set (values_at archive P b w p). x \<le> v)"
proof (cases "values_at archive P b w p = []")
  case True
  then show ?thesis by (simp add: pixel_max_def)
next
  case False
  then have "pixel_max archive P b w p = Some (Max (set (values_at archive P b w p)))"
    by (simp add: pixel_max_def max_list_Max)
  moreover have "Max (set (values_at archive P b w p)) = v \<longleftrightarrow>
     v \<in> set (values_at archive P b w p) \<and> (\<forall>x \<in> set (values_at archive P b w p). x \<le> v)"
    using False by (intro Max_eq_iff) simp_all
  ultimately show ?thesis by simp
qed

lemma pixel_max_None:
  "pixel_max archive P b w p = None \<longleftrightarrow> values_at archive P b w p = []"
  by (simp add: pixel_max_def max_list_Max)


lemma utc_ms_samples:
  "utc_ms 2018 1 1 = 1514764800000" "utc_ms 2018 3 5 = 1520208000000"
  "utc_ms 2018 6 1 = 1527811200000" "utc_ms 2018 6 2 = 1527897600000"
  "utc_ms 2018 6 10 = 1528588800000" "utc_ms 2018 6 11 = 1528675200000"
  "utc_ms 2018 6 20 = 1529452800000" "utc_ms 2018 7 1 = 1530403200000"
  "utc_ms 2019 1 1 = 1546300800000"
  "utc_ms 2018 (Suc 0) 1 = 1514764800000" "utc_ms 2019 (Suc 0) 1 = 1546300800000"
  by code_simp+

lemma getRange_samples:
  "getRange day_unit 1528588800000 = (1528588800000, 1528675200000)"
  "getRange month_unit 1528588800000 = (1527811200000, 1530403200000)"
  "getRange year_unit 1528588800000 = (1514764800000, 1546300800000)"
  by code_simp+

text \<open>
  C2. After every date change the Month layer and the Year layer hold an image of three
  bands, in this order: the largest VH value over time of the ascending passes in the
  window, the largest VV value of the ascending and descending passes together, and the
  largest VH value of the descending passes; at every pixel, no value where no pass has one.
\<close>

theorem composites_are_three_band_maxima:
  "Option.bind (layer_at 1 (slide r s)) (layer_bands archive) =
     Some [pixel_max archive ascending ''VH'' (getRange month_unit (fst r)),
           pixel_max archive (\<lambda>im. ascending im \<or> descending im) ''VV''
             (getRange month_unit (fst r)),
           pixel_max archive descending ''VH'' (getRange month_unit (fst r))] \<and>
   Option.bind (layer_at 2 (slide r s)) (layer_bands archive) =
     Some [pixel_max archive ascending ''VH'' (getRange year_unit (fst r)),
           pixel_max archive (\<lambda>im. ascending im \<or> descending im) ''VV''
             (getRange year_unit (fst r)),
           pixel_max archive descending ''VH'' (getRange year_unit (fst r))]"
  unfolding slide_layer_1 slide_layer_2
  by (simp add: layer_bands_def Map_Layer_def composite_bands)


text \<open>On the small archive, at the pixel \<open>(0, 0)\<close>, for the anchor date 2018-06-10.\<close>

theorem composites_are_three_band_maxima_witness:
  "map_option (map (\<lambda>b. b (0, 0)))
     (Option.bind (layer_at 1 (slide (dateSlider_range (utc_ms 2018 6 10)) (widgets_created 0)))
        (layer_bands sample_archive)) = Some [Some (-7), Some (-9), Some (-3)] \<and>
   map_option (map (\<lambda>b. b (0, 0)))
     (Option.bind (layer_at 2 (slide (dateSlider_range (utc_ms 2018 6 10)) (widgets_created 0)))
        (layer_bands sample_archive)) = Some [Some (-7), Some (-9), Some (-3)]"
  using composites_are_three_band_maxima
    [of "dateSlider_range (utc_ms 2018 6 10)" "widgets_created 0" sample_archive]
  by (simp add: dateSlider_range_def utc_ms_samples getRange_samples pixel_max_def values_at_def
      sample_archive_def obs_def dual_pol_iw_def ascending_def descending_def in_range_def)


text \<open>
  C3. The Day layer holds the collection itself, cut to the range the slider hands over: the
  dual-polarisation wide-swath observations whose time lies in the range. It is not an
  image: no reduction is applied.
\<close>

theorem daily_layer_is_raw_collection:
  "map_option eeObject (layer_at 0 (slide r s)) =
     Some (Collection_object (FilterDate (fst r) (snd r) vh)) \<and>
   Option.bind (layer_at 0 (slide r s)) (layer_images archive) =
     Some (filter (\<lambda>im. dual_pol_iw im \<and> in_range r (system_time_start im)) archive) \<and>
   Option.bind (layer_at 0 (slide r s)) (layer_bands archive) = None"
proof -
  have "images_of archive (FilterDate (fst r) (snd r) vh)
      = filter (\<lambda>im. dual_pol_iw im \<and> in_range r (system_time_start im)) archive"
    by (induction archive) (auto simp: images_vh in_range_def)
  then show ?thesis
    by (simp add: slide_layer_0 layer_images_def layer_bands_def Map_Layer_def)
qed


text \<open>On the small archive, the one observation of 2018-06-10 is left.\<close>

theorem daily_layer_is_raw_collection_witness:
  "map_option (map system_time_start)
     (Option.bind (layer_at 0 (slide (dateSlider_range (utc_ms 2018 6 10)) (widgets_created 0)))
        (layer_images sample_archive)) = Some [utc_ms 2018 6 10]"
  using daily_layer_is_raw_collection
    [of "dateSlider_range (utc_ms 2018 6 10)" "widgets_created 0" sample_archive]
  by (simp add: dateSlider_range_def utc_ms_samples getRange_samples
      sample_archive_def obs_def dual_pol_iw_def in_range_def)


section \<open>A change of granularity\<close>

lemma al_set_simps:
  "al_set 0 x [] = [Some x]"
  "al_set 0 x (y # ys) = Some x # ys"
  "al_set (Suc n) x [] = None # al_set n x []"
  "al_set (Suc n) x (y # ys) = y # al_set n x ys"
  by (simp_all add: al_set_def)

lemma al_get_simps:
  "al_get n [] = None"
  "al_get 0 (y # ys) = y"
  "al_get (Suc n) (y # ys) = al_get n ys"
  by (simp_all add: al_get_def)

lemma init_layers:
  "layers app_started =
     [Some (Map_Layer (Collection_object
              (FilterDate (fst (dateSlider_range (utc_ms 2022 1 1)))
                 (snd (dateSlider_range (utc_ms 2022 1 1))) vh)) daily_vis (Some ''Day'') False),
      Some (Map_Layer (Image_object
              (composite (getRange month_unit (fst (dateSlider_range (utc_ms 2022 1 1))))))
              composite_vis (Some ''Month'') True),
      Some (Map_Layer (Image_object
              (composite (getRange year_unit (fst (dateSlider_range (utc_ms 2022 1 1))))))
              composite_vis (Some ''Year'') False),
      Some (Map_Layer (Styled_point 49.950656 26.605644 ''black'' ''#00FFFF'' 7)
              \<lparr>vis_min = [], vis_max = [], vis_opacity = None, vis_palette = []\<rparr>
              (Some ''clicked location'') True)]"
  by (simp add: app_started_def init_app_def Let_def widgets_created_def dateSlider_setValue_def
      slide_def generateChart_def al_set_simps al_call_def al_get_simps numeral_3_eq_3
      numeral_2_eq_2 composite_def daily_vis_def composite_vis_def Map_Layer_def)


text \<open>
  C5, as it is stated, fails: the callback runs over every layer of the map and hides each
  one whose name is not the selected granularity. After the start of the application the
  marker of the clicked point is shown; selecting Day hides it.
\<close>

theorem marker_hidden_by_granularity_change:
  "map_option name (layer_at 3 app_started) = Some (Some ''clicked location'') \<and>
   map_option shown (layer_at 3 app_started) = Some True \<and>
   map_option shown (layer_at 3 (layerSelect_setValue ''Day'' app_started)) = Some False"
  by (simp add: layer_at_def layerSelect_setValue_def layerSelect_onChange_def init_layers
      al_forEach_def al_get_simps numeral_3_eq_3 Map_Layer_def)


text \<open>
  C5, amended. A change of granularity shows the layers whose name is the selected
  granularity and hides every other layer of the map, the marker and the overlays
  included; it leaves the object, the display parameters, the name and the opacity of every
  layer as they were, sets the label (when the map has a layer), and changes nothing else.
\<close>

theorem granularity_change_effect:
  "layers (layerSelect_setValue selected s) =
     map (map_option (\<lambda>l. l\<lparr>shown := (name l = Some selected)\<rparr>)) (layers s) \<and>
   (\<forall>i l'. layer_at i (layerSelect_setValue selected s) = Some l' \<longrightarrow>
      (\<exists>l. layer_at i s = Some l \<and> eeObject l' = eeObject l \<and> visParams l' = visParams l \<and>
           name l' = name l \<and> opacity l' = opacity l \<and>
           shown l' = (name l = Some selected))) \<and>
   layerSelect_value (layerSelect_setValue selected s) = selected \<and>
   image_info (layerSelect_setValue selected s) =
     (if al_elements (layers s) = [] then image_info s
      else ''You are currently viewing ''
           @ (case dict selected of None \<Rightarrow> ''undefined'' | Some d \<Rightarrow> d)
           @ '' Sentinel-1 imagery from '') \<and>
   (layerSelect_setValue selected s)
     \<lparr>layers := layers s, image_info := image_info s,
      layerSelect_value := layerSelect_value s\<rparr> = s"
proof -
  have l: "layers (layerSelect_setValue selected s) =
     map (map_option (\<lambda>l. l\<lparr>shown := (name l = Some selected)\<rparr>)) (layers s)"
    by (simp add: layerSelect_setValue_def layerSelect_onChange_def al_forEach_def eq_commute)
  have "\<And>i l'. layer_at i (layerSelect_setValue selected s) = Some l' \<Longrightarrow>
      (\<exists>l. layer_at i s = Some l \<and> eeObject l' = eeObject l \<and> visParams l' = visParams l \<and>
           name l' = name l \<and> opacity l' = opacity l \<and>
           shown l' = (name l = Some selected))"
    unfolding layer_at_def l by (auto simp: al_get_def split: if_splits)
  then show ?thesis
    using l by (simp add: layerSelect_setValue_def layerSelect_onChange_def)
qed

theorem granularity_change_effect_witness:
  "map_option shown (layer_at 0 (layerSelect_setValue ''Day'' app_started)) = Some True \<and>
   map_option shown (layer_at 1 (layerSelect_setValue ''Day'' app_started)) = Some False \<and>
   map_option eeObject (layer_at 1 (layerSelect_setValue ''Day'' app_started))
     = map_option eeObject (layer_at 1 app_started) \<and>
   image_info (layerSelect_setValue ''Day'' app_started)
     = ''You are currently viewing daily Sentinel-1 imagery from ''"
  using granularity_change_effect [of "''Day''" app_started]
  by (simp add: layer_at_def init_layers al_get_simps al_elements_def List.map_filter_simps
      Map_Layer_def dict_def)

section \<open>A click on the chart\<close>

lemma al_set_first_three:
  "al_set 2 c (al_set 1 b (al_set 0 a xs)) = [Some a, Some b, Some c] @ drop 3 xs"
proof (cases xs)
  case Nil
  then show ?thesis by (simp add: al_set_simps numeral_2_eq_2)
next
  case (Cons x1 ys)
  show ?thesis
  proof (cases ys)
    case Nil
    with Cons show ?thesis by (simp add: al_set_simps numeral_2_eq_2)
  next
    case (Cons x2 zs)
    show ?thesis
    proof (cases zs)
      case Nil
      with Cons \<open>xs = x1 # ys\<close> show ?thesis by (simp add: al_set_simps numeral_2_eq_2)
    next
      case (Cons x3 ws)
      with \<open>ys = x2 # zs\<close> \<open>xs = x1 # ys\<close> show ?thesis
        by (simp add: al_set_simps numeral_2_eq_2 numeral_3_eq_3)
    qed
  qed
qed

lemma civil_day_start: "civil (fst (getRange day_unit t)) = civil t"
proof -
  have "(t div msPerDay * msPerDay) div msPerDay = t div msPerDay"
    by (simp add: msPerDay_def)
  then show ?thesis
    by (simp add: getRange_def Let_def civil_def)
qed

lemma format_day_start:
  "format_MMMM_dd_YYYY (fst (getRange day_unit t)) = format_MMMM_dd_YYYY t"
  by (simp add: format_MMMM_dd_YYYY_def civil_day_start)

lemma dateSlider_setValue_onDateChange: "dateSlider_setValue t s = onDateChange t s"
proof -
  have m: "getRange month_unit (fst (getRange day_unit t)) = canonical_window month_unit t"
    unfolding same_day_start by (rule getRange_canonical)
  have y: "getRange year_unit (fst (getRange day_unit t)) = canonical_window year_unit t"
    unfolding same_day_start by (rule getRange_canonical)
  have d: "getRange day_unit t = canonical_window day_unit t"
    by (rule getRange_canonical)
  have m': "getRange month_unit (fst (canonical_window day_unit t)) = canonical_window month_unit t"
    using m by (simp only: d)
  have y': "getRange year_unit (fst (canonical_window day_unit t)) = canonical_window year_unit t"
    using y by (simp only: d)
  have f': "format_MMMM_dd_YYYY (fst (canonical_window day_unit t)) = format_MMMM_dd_YYYY t"
    using format_day_start [of t] by (simp only: d)
  have "dateSlider_setValue t s =
    s\<lparr>dateSlider_value := Some (getRange day_unit t),
      date_label := format_MMMM_dd_YYYY (fst (getRange day_unit t)),
      layers := al_set 2
         (Map_Layer (Image_object (composite (getRange year_unit (fst (getRange day_unit t)))))
            composite_vis (Some ''Year'') (''Year'' = layerSelect_value s))
         (al_set 1
           (Map_Layer (Image_object (composite (getRange month_unit (fst (getRange day_unit t)))))
              composite_vis (Some ''Month'') (''Month'' = layerSelect_value s))
           (al_set 0
             (Map_Layer (Collection_object
                (FilterDate (fst (getRange day_unit t)) (snd (getRange day_unit t)) vh))
                daily_vis (Some ''Day'') (''Day'' = layerSelect_value s))
             (layers s)))\<rparr>"
    by (simp add: dateSlider_setValue_def dateSlider_range_def slide_def Let_def composite_def
        composite_vis_def daily_vis_def)
  then show ?thesis
    unfolding al_set_first_three d m' y' f'
    by (simp add: onDateChange_def granularity_layer_def Map_Layer_def)
qed


text \<open>
  C6. A click on a point of the chart calls \<^verbatim>\<open>getDate\<close> with the time of the point, which
  sets the date slider: the state it leaves is the state a date change to that time leaves
  (the same three layers, the same date shown, the same granularity visible).
\<close>

theorem chart_click_is_date_change:
  "getDate t s = dateSlider_setValue t s \<and>
   getDate t s = onDateChange t s \<and>
   chart_click t (generateChart coords s) = dateSlider_setValue t (generateChart coords s) \<and>
   chart_click t (generateChart coords s) = onDateChange t (generateChart coords s)"
proof -
  have c: "chart_click t (generateChart coords s) = getDate t (generateChart coords s)"
    by (simp add: chart_click_def generateChart_def Let_def al_get_set_same)
  show ?thesis
    unfolding c by (simp add: getDate_def dateSlider_setValue_onDateChange)
qed

lemma init_select: "layerSelect_value app_started = ''Month''"
  by (simp add: app_started_def init_app_def Let_def widgets_created_def dateSlider_setValue_def
      slide_def generateChart_def al_call_def al_get_set_same al_get_set_other)

lemma samples_2018_06_10:
  "format_MMMM_dd_YYYY (utc_ms 2018 6 10) = ''June 10, 2018''"
  "canonical_window day_unit (utc_ms 2018 6 10) = (utc_ms 2018 6 10, utc_ms 2018 6 11)"
  by code_simp+

text \<open>A click on the point of 2018-06-10, the Month layer being the selected one.\<close>

theorem chart_click_is_date_change_witness:
  "date_label (chart_click (utc_ms 2018 6 10) (generateChart (1, 2) app_started))
     = ''June 10, 2018'' \<and>
   dateSlider_value (chart_click (utc_ms 2018 6 10) (generateChart (1, 2) app_started))
     = Some (utc_ms 2018 6 10, utc_ms 2018 6 11) \<and>
   map_option shown (layer_at 1 (chart_click (utc_ms 2018 6 10) (generateChart (1, 2) app_started)))
     = Some True"
proof -
  have e: "chart_click (utc_ms 2018 6 10) (generateChart (1, 2) app_started)
      = onDateChange (utc_ms 2018 6 10) (generateChart (1, 2) app_started)"
    using chart_click_is_date_change [of "utc_ms 2018 6 10" app_started "(1, 2)"] by blast
  have s: "layerSelect_value (generateChart (1, 2) app_started) = ''Month''"
    by (simp add: generateChart_def Let_def init_select)
  show ?thesis
    unfolding e
    by (simp add: onDateChange_def samples_2018_06_10 layer_at_def al_get_simps s
        granularity_layer_def)
qed

section \<open>The example sites\<close>

lemma al_get_forEach: "al_get i (al_forEach f xs) = map_option f (al_get i xs)"
  by (simp add: al_get_def al_forEach_def)

lemma al_get_update:
  "al_get i (xs[j := Some x]) = (if i = j \<and> j < length xs then Some x else al_get i xs)"
  by (simp add: al_get_def nth_list_update)

lemma configureExample_layers:
  assumes "al_get 1 (layers s) = Some m" and "al_get 3 (layers s) = Some d"
  shows "configureExample labs opac s =
     Inr (s\<lparr>layers := (al_forEach (\<lambda>l. l\<lparr>shown := False\<rparr>) (layers s))
              [1 := Some (m\<lparr>shown := True, opacity := opac\<rparr>), 3 := Some (d\<lparr>shown := True\<rparr>)],
            inspector := al_set 11 contact (al_set 10 (Panel labs) (inspector s))\<rparr>)"
proof -
  let ?h = "al_forEach (\<lambda>l. l\<lparr>shown := False\<rparr>) (layers s)"
  have len: "1 < length (layers s)" "3 < length (layers s)"
    using assms by (auto simp: al_get_def split: if_splits)
  have 1: "al_call 1 (\<lambda>l. l\<lparr>shown := True\<rparr>) ?h = Inr (?h[1 := Some (m\<lparr>shown := True\<rparr>)])"
    using assms(1) by (simp add: al_call_def al_get_forEach)
  have 2: "al_call 3 (\<lambda>l. l\<lparr>shown := True\<rparr>) (?h[1 := Some (m\<lparr>shown := True\<rparr>)])
      = Inr (?h[1 := Some (m\<lparr>shown := True\<rparr>), 3 := Some (d\<lparr>shown := True\<rparr>)])"
    using assms(2) by (simp add: al_call_def al_get_update al_get_forEach)
  have 3: "al_call 1 (\<lambda>l. l\<lparr>opacity := opac\<rparr>)
        (?h[1 := Some (m\<lparr>shown := True\<rparr>), 3 := Some (d\<lparr>shown := True\<rparr>)])
      = Inr (?h[1 := Some (m\<lparr>shown := True, opacity := opac\<rparr>), 3 := Some (d\<lparr>shown := True\<rparr>)])"
  proof -
    have "\<And>xs a b c. xs[1 := a, 3 := b, 1 := c] = xs[1 := c, 3 := (b :: layer option)]"
    proof -
      fix xs :: "layer option list" and a b c
      have "xs[1 := a, 3 := b, 1 := c] = xs[1 := a, 1 := c, 3 := b]"
        by (rule list_update_swap) simp
      then show "xs[1 := a, 3 := b, 1 := c] = xs[1 := c, 3 := b]"
        by simp
    qed
    then show ?thesis
      using len by (simp add: al_call_def al_get_update al_forEach_def del: One_nat_def)
  qed
  show ?thesis
    by (simp add: configureExample_def 1 [simplified] 2 [simplified] 3 [simplified])
qed

lemma drop_3_al_set_3: "drop 3 (al_set 3 x xs) = Some x # drop 4 xs"
proof -
  have "drop 3 (al_set 3 x xs) = Some x # drop (Suc 3) xs"
  proof (cases "3 < length xs")
    case True
    then show ?thesis
      by (simp add: al_set_def drop_update_cancel Cons_nth_drop_Suc [symmetric] del: drop_Suc_Cons)
  next
    case False
    then show ?thesis by (simp add: al_set_def)
  qed
  then show ?thesis by simp
qed

lemma generateChart_fields:
  "layers (generateChart coords s) = al_set 3 (dot_at coords) (layers s)"
  "inspector (generateChart coords s) = al_set 3 (Chart (rfiChart_at coords)) (inspector s)"
  "layerSelect_value (generateChart coords s) = layerSelect_value s"
  "map_center (generateChart coords s) = map_center s"
  by (simp_all add: generateChart_def Let_def dot_at_def rfiChart_at_def Map_Layer_def)

lemma onDateChange_fields:
  "inspector (onDateChange t s) = inspector s"
  "map_center (onDateChange t s) = map_center s"
  "date_label (onDateChange t s) = format_MMMM_dd_YYYY t"
  "dateSlider_value (onDateChange t s) = Some (canonical_window day_unit t)"
  "layerSelect_value (onDateChange t s) = layerSelect_value s"
  by (simp_all add: onDateChange_def)

lemma samples_2021_12_14:
  "parse_date ''2021-12-14'' = Some (utc_ms 2021 12 14)"
  "format_MMMM_dd_YYYY (utc_ms 2021 12 14) = ''December 14, 2021''"
  "canonical_window day_unit (utc_ms 2021 12 14) = (utc_ms 2021 12 14, utc_ms 2021 12 15)"
  "canonical_window month_unit (utc_ms 2021 12 14) = (utc_ms 2021 12 1, utc_ms 2022 1 1)"
  by code_simp+

lemma configureExample_after_date_change:
  "configureExample txt opac (onDateChange t (generateChart coords s)) =
     Inr ((onDateChange t (generateChart coords s))
       \<lparr>layers :=
          [Some ((granularity_layer ''Day''
                  (Collection_object
                     (FilterDate (fst (canonical_window day_unit t))
                        (snd (canonical_window day_unit t)) vh))
                  daily_vis (layerSelect_value s))\<lparr>shown := False\<rparr>),
           Some ((granularity_layer ''Month''
                  (Image_object (composite (canonical_window month_unit t)))
                  composite_vis (layerSelect_value s))\<lparr>shown := True, opacity := opac\<rparr>),
           Some ((granularity_layer ''Year''
                  (Image_object (composite (canonical_window year_unit t)))
                  composite_vis (layerSelect_value s))\<lparr>shown := False\<rparr>),
           Some (dot_at coords)]
          @ map (map_option (\<lambda>l. l\<lparr>shown := False\<rparr>)) (drop 4 (layers s)),
        inspector := al_set 11 contact (al_set 10 (Panel txt)
          (al_set 3 (Chart (rfiChart_at coords)) (inspector s)))\<rparr>)"
proof -
  have l: "layers (onDateChange t (generateChart coords s)) =
     [Some (granularity_layer ''Day''
              (Collection_object
                 (FilterDate (fst (canonical_window day_unit t))
                    (snd (canonical_window day_unit t)) vh))
              daily_vis (layerSelect_value s)),
      Some (granularity_layer ''Month''
              (Image_object (composite (canonical_window month_unit t)))
              composite_vis (layerSelect_value s)),
      Some (granularity_layer ''Year''
              (Image_object (composite (canonical_window year_unit t)))
              composite_vis (layerSelect_value s)),
      Some (dot_at coords)] @ drop 4 (layers s)"
    by (simp add: onDateChange_def generateChart_fields drop_3_al_set_3)
  show ?thesis
    unfolding configureExample_def l
    by (simp add: onDateChange_fields generateChart_fields
        al_forEach_def al_call_def al_get_simps numeral_3_eq_3 dot_at_def)
qed

lemma samples_2022_01_01:
  "parse_date ''2022-01-01'' = Some (utc_ms 2022 1 1)"
  by code_simp

lemma after_dammam_text: "al_get 10 (inspector after_dammam) = Some (Panel loc1_text)"
proof -
  let ?s1 = "generateChart (49.949916, 26.606379)
    (app_started\<lparr>locationSelect_value := Some ''Dammam, Saudi Arabia'',
       map_center := Some (49.949916, 26.606379, 19)\<rparr>)"
  let ?s2 = "onDateChange (utc_ms 2022 1 1) ?s1"
  have e: "locationSelect_setValue ''Dammam, Saudi Arabia'' app_started = loc1_function ?s2"
    by (simp add: locationSelect_setValue_def locationSelect_onChange_def locationDict_def
        samples_2022_01_01 dateSlider_setValue_onDateChange)
  have l: "layers ?s2 = [Some (granularity_layer ''Day''
              (Collection_object
                 (FilterDate (fst (canonical_window day_unit (utc_ms 2022 1 1)))
                    (snd (canonical_window day_unit (utc_ms 2022 1 1))) vh))
              daily_vis ''Month''),
      Some (granularity_layer ''Month''
              (Image_object (composite (canonical_window month_unit (utc_ms 2022 1 1))))
              composite_vis ''Month''),
      Some (granularity_layer ''Year''
              (Image_object (composite (canonical_window year_unit (utc_ms 2022 1 1))))
              composite_vis ''Month''),
      Some (dot_at (49.949916, 26.606379))]"
    by (simp add: onDateChange_def generateChart_fields drop_3_al_set_3 init_select init_layers)
  have h: "al_get 1 (layers (?s2\<lparr>layers := al_add dammam_outline (layers ?s2)\<rparr>))
      = Some (granularity_layer ''Month''
              (Image_object (composite (canonical_window month_unit (utc_ms 2022 1 1))))
              composite_vis ''Month'')"
    "al_get 3 (layers (?s2\<lparr>layers := al_add dammam_outline (layers ?s2)\<rparr>))
      = Some (dot_at (49.949916, 26.606379))"
    unfolding l by (simp_all add: al_add_def al_get_simps numeral_3_eq_3)
  show ?thesis
    unfolding after_dammam_def e loc1_function_def configureExample_layers [OF h]
    by (simp add: al_get_set_same al_get_set_other)
qed


text \<open>
  C10. \<^verbatim>\<open>configureExample\<close> hides every layer, then shows the layers at positions 1 and 3
  and gives the layer at position 1 the site's opacity; no other layer is shown or changes
  its opacity, whatever the dropdown says. The outline that \<^verbatim>\<open>loc1_function\<close> appends just
  before, at the end of the list, stays hidden.
\<close>

theorem example_site_shows_slots_1_and_3:
  assumes "al_get 1 (layers s) = Some m" and "al_get 3 (layers s) = Some d"
  shows "\<exists>s'. configureExample labs opac s = Inr s' \<and>
     length (layers s') = length (layers s) \<and>
     (\<forall>i. al_get i (layers s') =
        (if i = 1 then Some (m\<lparr>shown := True, opacity := opac\<rparr>)
         else if i = 3 then Some (d\<lparr>shown := True\<rparr>)
         else map_option (\<lambda>l. l\<lparr>shown := False\<rparr>) (al_get i (layers s)))) \<and>
     (\<forall>g. map_sum id layers (configureExample labs opac (s\<lparr>layerSelect_value := g\<rparr>))
        = Inr (layers s')) \<and>
     (\<exists>s''. loc1_function s = Inr s'' \<and>
        al_get (length (layers s)) (layers s'') = Some (dammam_outline\<lparr>shown := False\<rparr>) \<and>
        map_option shown (al_get 1 (layers s'')) = Some True \<and>
        map_option opacity (al_get 1 (layers s'')) = Some 0.1 \<and>
        map_option shown (al_get 3 (layers s'')) = Some True)"
proof -
  have len: "1 < length (layers s)" "3 < length (layers s)"
    using assms by (auto simp: al_get_def split: if_splits)
  note c = configureExample_layers [OF assms, of labs opac]
  have g: "\<And>g. configureExample labs opac (s\<lparr>layerSelect_value := g\<rparr>) =
     Inr (s\<lparr>layerSelect_value := g,
            layers := (al_forEach (\<lambda>l. l\<lparr>shown := False\<rparr>) (layers s))
              [1 := Some (m\<lparr>shown := True, opacity := opac\<rparr>), 3 := Some (d\<lparr>shown := True\<rparr>)],
            inspector := al_set 11 contact (al_set 10 (Panel labs) (inspector s))\<rparr>)"
    using assms by (subst configureExample_layers [where m = m and d = d]) simp_all
  let ?s1 = "s\<lparr>layers := al_add dammam_outline (layers s)\<rparr>"
  have a1: "al_get 1 (layers ?s1) = Some m" "al_get 3 (layers ?s1) = Some d"
    using assms len by (auto simp: al_add_def al_get_def nth_append)
  have l1': "loc1_function s = configureExample loc1_text 0.1 ?s1"
    by (simp add: loc1_function_def)
  have d: "\<exists>s''. loc1_function s = Inr s'' \<and>
        al_get (length (layers s)) (layers s'') = Some (dammam_outline\<lparr>shown := False\<rparr>) \<and>
        map_option shown (al_get 1 (layers s'')) = Some True \<and>
        map_option opacity (al_get 1 (layers s'')) = Some 0.1 \<and>
        map_option shown (al_get 3 (layers s'')) = Some True"
    unfolding l1' configureExample_layers [OF a1]
    using len by (auto simp: al_get_update al_get_forEach al_add_def al_forEach_def al_get_def
        nth_append)
  let ?r = "s\<lparr>layers := (al_forEach (\<lambda>l. l\<lparr>shown := False\<rparr>) (layers s))
              [1 := Some (m\<lparr>shown := True, opacity := opac\<rparr>), 3 := Some (d\<lparr>shown := True\<rparr>)],
            inspector := al_set 11 contact (al_set 10 (Panel labs) (inspector s))\<rparr>"
  have p1: "length (layers ?r) = length (layers s)"
    by (simp add: al_forEach_def)
  have len': "1 < length (al_forEach (\<lambda>l. l\<lparr>shown := False\<rparr>) (layers s))"
      "3 < length (al_forEach (\<lambda>l. l\<lparr>shown := False\<rparr>) (layers s))"
    using len by (simp_all add: al_forEach_def)
  have p2: "\<forall>i. al_get i (layers ?r) =
        (if i = 1 then Some (m\<lparr>shown := True, opacity := opac\<rparr>)
         else if i = 3 then Some (d\<lparr>shown := True\<rparr>)
         else map_option (\<lambda>l. l\<lparr>shown := False\<rparr>) (al_get i (layers s)))"
    using len' by (simp add: al_get_update al_get_forEach)
  have p3: "\<forall>g. map_sum id layers (configureExample labs opac (s\<lparr>layerSelect_value := g\<rparr>))
        = Inr (layers ?r)"
    by (simp add: g)
  from c p1 p2 p3 d show ?thesis by blast
qed



text \<open>With Year selected: the Month layer and the marker are shown, the Year layer is not.\<close>

lemma year_selected_layers:
  "map (map_option name) (layers year_selected)
     = [Some (Some ''Day''), Some (Some ''Month''), Some (Some ''Year''),
        Some (Some ''clicked location'')]"
  "map (map_option shown) (layers year_selected) = [Some False, Some False, Some True, Some False]"
  "length (layers year_selected) = 4"
  "layerSelect_value year_selected = ''Year''"
  by (simp_all add: year_selected_def layerSelect_setValue_def layerSelect_onChange_def
      init_layers al_forEach_def Map_Layer_def)

theorem example_site_shows_slots_1_and_3_witness:
  "\<exists>s' s''. configureExample loc2_text 0.8 year_selected = Inr s' \<and>
     map_option name (al_get 1 (layers s')) = Some (Some ''Month'') \<and>
     map_option shown (al_get 0 (layers s')) = Some False \<and>
     map_option shown (al_get 1 (layers s')) = Some True \<and>
     map_option shown (al_get 2 (layers s')) = Some False \<and>
     map_option shown (al_get 3 (layers s')) = Some True \<and>
     map_option opacity (al_get 1 (layers s')) = Some 0.8 \<and>
     map_option opacity (al_get 2 (layers s')) = Some 1 \<and>
     loc1_function year_selected = Inr s'' \<and>
     al_get 4 (layers s'') = Some (dammam_outline\<lparr>shown := False\<rparr>)"
proof -
  obtain l0 l1 l2 l3 where ls: "layers year_selected = [Some l0, Some l1, Some l2, Some l3]"
    by (simp add: year_selected_def layerSelect_setValue_def layerSelect_onChange_def
        init_layers al_forEach_def)
  have h1: "al_get 1 (layers year_selected) = Some l1"
    and h3: "al_get 3 (layers year_selected) = Some l3"
    by (simp_all add: ls al_get_simps numeral_3_eq_3)
  from example_site_shows_slots_1_and_3 [OF h1 h3, of loc2_text "0.8"]
  obtain s' s'' where r: "configureExample loc2_text 0.8 year_selected = Inr s'"
    "\<forall>i. al_get i (layers s') =
        (if i = 1 then Some (l1\<lparr>shown := True, opacity := 0.8\<rparr>)
         else if i = 3 then Some (l3\<lparr>shown := True\<rparr>)
         else map_option (\<lambda>l. l\<lparr>shown := False\<rparr>) (al_get i (layers year_selected)))"
    "loc1_function year_selected = Inr s''"
    "al_get (length (layers year_selected)) (layers s'') = Some (dammam_outline\<lparr>shown := False\<rparr>)"
    by blast
  have n: "name l1 = Some ''Month''" "opacity l2 = 1"
    using ls
    by (auto simp: year_selected_def layerSelect_setValue_def layerSelect_onChange_def
        init_layers al_forEach_def Map_Layer_def)
  have "map_option name (al_get 1 (layers s')) = Some (Some ''Month'')"
    "map_option shown (al_get 0 (layers s')) = Some False"
    "map_option shown (al_get 1 (layers s')) = Some True"
    "map_option shown (al_get 2 (layers s')) = Some False"
    "map_option shown (al_get 3 (layers s')) = Some True"
    "map_option opacity (al_get 1 (layers s')) = Some 0.8"
    "map_option opacity (al_get 2 (layers s')) = Some 1"
    using r(2) n by (simp_all add: ls al_get_simps numeral_2_eq_2)
  moreover have "al_get 4 (layers s'') = Some (dammam_outline\<lparr>shown := False\<rparr>)"
    using r(4) unfolding year_selected_layers(3) .
  ultimately show ?thesis using r(1,3) by blast
qed


lemma loc1_text_length: "length loc1_text = 4"
  by (simp add: loc1_text_def Let_def)


text \<open>
  C9. Selecting White Sands Missile Range sets the viewport to zoom 10, the date to
  2021-12-14, the opacity of the Month composite to 0.8, and puts a panel of exactly the two
  labels of the site, with the texts the script gives them, at position 10 of the panel,
  whatever stood there before.
\<close>

theorem white_sands_selected:
  "\<exists>s' labels. locationSelect_setValue ''White Sands Missile Range, USA'' s = Inr s' \<and>
     labels =
       [Label [Str ''The White Sands Missile Range (WSMR) is a U.S. Military base located in New Mexico.''] []
          (Some ''https://en.wikipedia.org/wiki/White_Sands_Missile_Range''),
        Label [Str (''Patriot missiles are often tested at Launch Complex 38. The RFI graph shows significant radar activity on December 14th, 2021, and February 23rd, 2020. Smaller signatures are also visible in April and June 2021, as well as at various points since 2017.'')] [] None] \<and>
     length labels = 2 \<and>
     map_center s' = Some (-106.3122, 31.9735, 10) \<and>
     dateSlider_value s' = Some (utc_ms 2021 12 14, utc_ms 2021 12 15) \<and>
     date_label s' = ''December 14, 2021'' \<and>
     map_option name (layer_at 1 s') = Some (Some ''Month'') \<and>
     map_option eeObject (layer_at 1 s')
       = Some (Image_object (composite (utc_ms 2021 12 1, utc_ms 2022 1 1))) \<and>
     map_option shown (layer_at 1 s') = Some True \<and>
     map_option opacity (layer_at 1 s') = Some 0.8 \<and>
     al_get 10 (inspector s') = Some (Panel labels) \<and>
     inspector s' = al_set 11 contact (al_set 10 (Panel labels)
       (al_set 3 (Chart (rfiChart_at (-106.3122, 31.9735))) (inspector s)))"
proof -
  let ?s1 = "generateChart (-106.3122, 31.9735)
    (s\<lparr>locationSelect_value := Some ''White Sands Missile Range, USA'',
       map_center := Some (-106.3122, 31.9735, 10)\<rparr>)"
  have "locationSelect_setValue ''White Sands Missile Range, USA'' s
      = configureExample loc4_text 0.8 (onDateChange (utc_ms 2021 12 14) ?s1)"
    by (simp add: locationSelect_setValue_def locationSelect_onChange_def locationDict_def
        samples_2021_12_14 dateSlider_setValue_onDateChange loc4_function_def)
  then show ?thesis
    unfolding configureExample_after_date_change
    by (simp add: onDateChange_fields generateChart_fields samples_2021_12_14 layer_at_def
        al_get_simps granularity_layer_def al_get_set_same al_get_set_other loc4_text_def
        Let_def)
qed


text \<open>After a visit to Dammam, whose four labels stood at position 10.\<close>

theorem white_sands_selected_witness:
  "al_get 10 (inspector after_dammam) = Some (Panel loc1_text) \<and>
   length loc1_text = 4 \<and>
   (\<exists>s' labels. locationSelect_setValue ''White Sands Missile Range, USA'' after_dammam = Inr s' \<and>
      al_get 10 (inspector s') = Some (Panel labels) \<and>
      labels =
        [Label [Str ''The White Sands Missile Range (WSMR) is a U.S. Military base located in New Mexico.''] []
           (Some ''https://en.wikipedia.org/wiki/White_Sands_Missile_Range''),
         Label [Str (''Patriot missiles are often tested at Launch Complex 38. The RFI graph shows significant radar activity on December 14th, 2021, and February 23rd, 2020. Smaller signatures are also visible in April and June 2021, as well as at various points since 2017.'')] [] None] \<and>
      length labels = 2 \<and>
      map_center s' = Some (-106.3122, 31.9735, 10) \<and>
      date_label s' = ''December 14, 2021'' \<and>
      map_option opacity (layer_at 1 s') = Some 0.8)"
  using white_sands_selected [of after_dammam] after_dammam_text loc1_text_length by blast


section \<open>A window with no observation\<close>

lemma window_empty_iff:
  "window_empty archive w \<longleftrightarrow>
     (\<forall>im \<in> set archive. \<not> (dual_pol_iw im \<and> in_range w (system_time_start im)))"
proof -
  have "images_of archive (FilterDate (fst w) (snd w) vh)
      = filter (\<lambda>im. dual_pol_iw im \<and> in_range w (system_time_start im)) archive"
    by (induction archive) (auto simp: images_vh in_range_def)
  then show ?thesis
    by (simp add: window_empty_def filter_empty_conv)
qed

lemma window_empty_pass:
  assumes "window_empty archive w"
  shows "bands_of archive
      (Select b (FilterDate (fst w) (snd w) (Filter (Filter_eq ''orbitProperties_pass'' d) vh)))
    = []"
proof -
  from assms have "filter (\<lambda>im. dual_pol_iw im \<and> orbitProperties_pass im = d \<and>
      in_range w (system_time_start im)) archive = []"
    by (auto simp: window_empty_iff filter_empty_conv)
  then show ?thesis
    unfolding bands_of.simps images_window by (simp add: List.map_filter_simps)
qed

lemma reduction_inputs_empty:
  "window_empty archive w \<Longrightarrow> reduction_inputs archive (composite w) = [[], [], []]"
  by (simp add: composite_def vhA_def vhD_def window_empty_pass del: bands_of.simps(1))

lemma window_empty_samples:
  "window_empty sample_archive (getRange month_unit (fst (dateSlider_range (utc_ms 2018 4 10))))"
  "\<not> window_empty sample_archive (getRange year_unit (fst (dateSlider_range (utc_ms 2018 4 10))))"
  "window_empty sample_archive (getRange year_unit (fst (dateSlider_range (utc_ms 2020 2 2))))"
  by code_simp+


text \<open>
  C8, as it is stated, fails: the script sets no flag. The state a date change leaves is
  the same whether the archive holds observations in the window or none, so nothing
  computed from the state tells the two apart.
\<close>

theorem empty_window_is_not_flagged:
  "window_empty [] (getRange month_unit (utc_ms 2018 6 10)) \<and>
   \<not> window_empty sample_archive (getRange month_unit (utc_ms 2018 6 10)) \<and>
   \<not> (\<exists>flag :: ui_state \<Rightarrow> bool.
        (flag (dateSlider_setValue (utc_ms 2018 6 10) app_started)
           = window_empty [] (getRange month_unit (utc_ms 2018 6 10))) \<and>
        (flag (dateSlider_setValue (utc_ms 2018 6 10) app_started)
           = window_empty sample_archive (getRange month_unit (utc_ms 2018 6 10))))"
proof -
  have e: "window_empty [] (getRange month_unit (utc_ms 2018 6 10))"
    by (simp add: window_empty_iff)
  have n: "\<not> window_empty sample_archive (getRange month_unit (utc_ms 2018 6 10))"
    by (simp add: window_empty_iff utc_ms_samples getRange_samples sample_archive_def obs_def
        dual_pol_iw_def in_range_def)
  from e n show ?thesis by blast
qed


text \<open>
  C8, amended. When the month of the date holds no matching observation, \<^verbatim>\<open>slide\<close> still sets
  the Month layer, and it is the layer it sets for any other date: the composite expression
  over the month, the display parameters of the composites, the name, the visibility the
  selected granularity gives it and opacity 1, and nothing else; each of the three
  reductions of the composite is then handed no observation. The same holds for the Year
  layer when the year of the date holds none.
\<close>

theorem empty_window_layers:
  "(window_empty archive (getRange month_unit (fst r)) \<longrightarrow>
      layer_at 1 (slide r s) =
        Some \<lparr>eeObject = Image_object (composite (getRange month_unit (fst r))),
               visParams = composite_vis, name = Some ''Month'',
               shown = (''Month'' = layerSelect_value s), opacity = 1\<rparr> \<and>
      reduction_inputs archive (composite (getRange month_unit (fst r))) = [[], [], []]) \<and>
   (window_empty archive (getRange year_unit (fst r)) \<longrightarrow>
      layer_at 2 (slide r s) =
        Some \<lparr>eeObject = Image_object (composite (getRange year_unit (fst r))),
               visParams = composite_vis, name = Some ''Year'',
               shown = (''Year'' = layerSelect_value s), opacity = 1\<rparr> \<and>
      reduction_inputs archive (composite (getRange year_unit (fst r))) = [[], [], []])"
  unfolding slide_layer_1 slide_layer_2
  by (simp add: Map_Layer_def reduction_inputs_empty)


text \<open>
  On the sample archive: April 2018 holds no observation while the year 2018 does, and the
  year 2020 holds none.
\<close>

theorem empty_window_layers_witness:
  "window_empty sample_archive (getRange month_unit (fst (dateSlider_range (utc_ms 2018 4 10)))) \<and>
   \<not> window_empty sample_archive (getRange year_unit (fst (dateSlider_range (utc_ms 2018 4 10)))) \<and>
   window_empty sample_archive (getRange year_unit (fst (dateSlider_range (utc_ms 2020 2 2)))) \<and>
   layer_at 1 (slide (dateSlider_range (utc_ms 2018 4 10)) app_started) =
     Some \<lparr>eeObject = Image_object (composite
              (getRange month_unit (fst (dateSlider_range (utc_ms 2018 4 10))))),
            visParams = composite_vis, name = Some ''Month'',
            shown = (''Month'' = layerSelect_value app_started), opacity = 1\<rparr> \<and>
   reduction_inputs sample_archive
     (composite (getRange month_unit (fst (dateSlider_range (utc_ms 2018 4 10))))) = [[], [], []] \<and>
   layer_at 2 (slide (dateSlider_range (utc_ms 2020 2 2)) app_started) =
     Some \<lparr>eeObject = Image_object (composite
              (getRange year_unit (fst (dateSlider_range (utc_ms 2020 2 2))))),
            visParams = composite_vis, name = Some ''Year'',
            shown = (''Year'' = layerSelect_value app_started), opacity = 1\<rparr> \<and>
   reduction_inputs sample_archive
     (composite (getRange year_unit (fst (dateSlider_range (utc_ms 2020 2 2))))) = [[], [], []]"
  using empty_window_layers [of sample_archive "dateSlider_range (utc_ms 2018 4 10)" app_started]
    empty_window_layers [of sample_archive "dateSlider_range (utc_ms 2020 2 2)" app_started]
    window_empty_samples
  by blast


section \<open>The time series of a clicked point\<close>

lemma rfi_series_generateChart:
  "rfi_series disc archive (generateChart coords s) =
     List.map_filter
       (\<lambda>im. map_option (Pair (system_time_start im)) (covered disc coords 500 im))
       (filter dual_pol_iw archive)"
proof -
  have "\<And>xs. extractSeries disc
      (List.map_filter (\<lambda>im. map_option (Pair (system_time_start im)) (bands im ''VH'')) xs)
      coords 500
    = List.map_filter
       (\<lambda>im. map_option (Pair (system_time_start im)) (covered disc coords 500 im)) xs"
  proof -
    fix xs show "extractSeries disc
      (List.map_filter (\<lambda>im. map_option (Pair (system_time_start im)) (bands im ''VH'')) xs)
      coords 500
    = List.map_filter
       (\<lambda>im. map_option (Pair (system_time_start im)) (covered disc coords 500 im)) xs"
      by (induction xs)
        (auto simp: extractSeries_def covered_def List.map_filter_simps split: option.splits)
  qed
  then show ?thesis
    by (simp add: rfi_series_def generateChart_def Let_def al_get_set_same chart_data_def
        images_vh)
qed

lemma generateChart_chart:
  "al_get 3 (inspector (generateChart coords s)) = Some (Chart (rfiChart_at coords))"
  by (simp add: generateChart_fields al_get_set_same)

lemma covered_iff:
  "covered disc point sampleRadius im \<noteq> None \<longleftrightarrow>
     (\<exists>r. bands im ''VH'' = Some r \<and> (\<exists>p \<in> set (disc point sampleRadius). r p \<noteq> None))"
  by (auto simp: covered_def region_max_def max_list_Max List.map_filter_def filter_empty_conv
      split: option.splits)

lemma map_fst_map_filter:
  "map fst (List.map_filter (\<lambda>x. map_option (Pair (f x)) (g x)) xs)
     = map f (filter (\<lambda>x. g x \<noteq> None) xs)"
  by (induction xs) (auto simp: List.map_filter_simps)


text \<open>
  C4, as it is stated, fails for the order of the times: two observations of the same
  instant that both have a value at the point give two entries with the same time.
\<close>

theorem series_times_not_strictly_increasing:
  "rfi_series (\<lambda>point radius. [(0, 0)]) twin_archive (generateChart (1, 2) app_started)
     = [(utc_ms 2018 6 10, -20), (utc_ms 2018 6 10, -3)] \<and>
   \<not> sorted_wrt (<) (map fst
      (rfi_series (\<lambda>point radius. [(0, 0)]) twin_archive (generateChart (1, 2) app_started)))"
  unfolding rfi_series_generateChart
  by (simp add: twin_archive_def obs_def dual_pol_iw_def covered_def region_max_def
      List.map_filter_simps)


text \<open>
  C4, amended. For every clicked point the chart is requested for the whole collection
  \<^verbatim>\<open>vh\<close>, band VH, whatever date is selected, with the point as the region, the maximum as
  the reducer and 500 as the fourth argument. The series has one entry for every observation
  with a VH value at one of the pixels sampled for the point and the argument 500, in the
  order of the archive and with the time of that observation, and none for the others; the
  value of an entry is the largest of the observation's values at those pixels.
\<close>

theorem chart_series_in_archive_order:
  "al_get 3 (inspector (generateChart coords s)) =
     Some (Chart \<lparr>series_collection = Select ''VH'' vh,
                   series_region = coords,
                   series_reducer = Reducer_max,
                   series_scale = 500,
                   chart_title =
                     [Str ''Radio Frequency Interference at (lon:'', ToFixed2 (fst coords),
                      Str '', lat:'', ToFixed2 (snd coords), Str '')''],
                   vAxis_title = ''VH '',
                   lineWidth = 2,
                   series_option = ''Area of Interest'',
                   onClick = Some ''getDate''\<rparr>) \<and>
   images_of archive vh = filter dual_pol_iw archive \<and>
   rfi_series disc archive (generateChart coords s) =
     List.map_filter
       (\<lambda>im. map_option (Pair (system_time_start im)) (covered disc coords 500 im))
       (filter dual_pol_iw archive) \<and>
   rfi_series disc archive (generateChart coords (dateSlider_setValue t s))
     = rfi_series disc archive (generateChart coords s) \<and>
   map fst (rfi_series disc archive (generateChart coords s)) =
     map system_time_start
       (filter (\<lambda>im. dual_pol_iw im \<and>
           (\<exists>r. bands im ''VH'' = Some r \<and> (\<exists>p \<in> set (disc coords 500). r p \<noteq> None)))
         archive) \<and>
   (\<forall>x v. (x, v) \<in> set (rfi_series disc archive (generateChart coords s)) \<longrightarrow>
      (\<exists>im r. im \<in> set archive \<and> dual_pol_iw im \<and> system_time_start im = x \<and>
         bands im ''VH'' = Some r \<and>
         v \<in> set (List.map_filter r (disc coords 500)) \<and>
         (\<forall>u \<in> set (List.map_filter r (disc coords 500)). u \<le> v)))"
proof -
  note e = rfi_series_generateChart
  have c: "al_get 3 (inspector (generateChart coords s)) = Some (Chart (rfiChart_at coords))"
    by (rule generateChart_chart)
  have m: "\<And>x v. (x, v) \<in> set (rfi_series disc archive (generateChart coords s)) \<Longrightarrow>
      (\<exists>im r. im \<in> set archive \<and> dual_pol_iw im \<and> system_time_start im = x \<and>
         bands im ''VH'' = Some r \<and>
         v \<in> set (List.map_filter r (disc coords 500)) \<and>
         (\<forall>u \<in> set (List.map_filter r (disc coords 500)). u \<le> v))"
  proof -
    fix x v assume "(x, v) \<in> set (rfi_series disc archive (generateChart coords s))"
    then obtain im where im: "im \<in> set archive" "dual_pol_iw im" "system_time_start im = x"
        "covered disc coords 500 im = Some v"
      unfolding e by (auto simp: List.map_filter_def)
    then obtain r where r: "bands im ''VH'' = Some r" "region_max disc r coords 500 = Some v"
      by (auto simp: covered_def split: option.splits)
    from r(2) have "List.map_filter r (disc coords 500) \<noteq> []"
      and "v = Max (set (List.map_filter r (disc coords 500)))"
      by (auto simp: region_max_def max_list_Max split: if_splits)
    then have "v \<in> set (List.map_filter r (disc coords 500))"
      and "\<forall>u \<in> set (List.map_filter r (disc coords 500)). u \<le> v"
      by simp_all
    with im r show "\<exists>im r. im \<in> set archive \<and> dual_pol_iw im \<and> system_time_start im = x \<and>
         bands im ''VH'' = Some r \<and>
         v \<in> set (List.map_filter r (disc coords 500)) \<and>
         (\<forall>u \<in> set (List.map_filter r (disc coords 500)). u \<le> v)"
      by blast
  qed
  have f: "map fst (rfi_series disc archive (generateChart coords s)) =
     map system_time_start
       (filter (\<lambda>im. dual_pol_iw im \<and>
           (\<exists>r. bands im ''VH'' = Some r \<and> (\<exists>p \<in> set (disc coords 500). r p \<noteq> None)))
         archive)"
    unfolding e map_fst_map_filter covered_iff by (simp add: conj_commute)
  from c m f show ?thesis
    by (simp add: e images_vh rfiChart_at_def)
qed


text \<open>On the archive whose second observation has no value: two entries.\<close>

theorem chart_series_in_archive_order_witness:
  "rfi_series (\<lambda>point radius. [(0, 0)]) patchy_archive (generateChart (1, 2) app_started)
     = [(utc_ms 2018 3 5, -20), (utc_ms 2018 6 10, -3)] \<and>
   map fst (rfi_series (\<lambda>point radius. [(0, 0)]) patchy_archive (generateChart (1, 2) app_started))
     = [utc_ms 2018 3 5, utc_ms 2018 6 10] \<and>
   (utc_ms 2018 6 10, -3) \<in> set
     (rfi_series (\<lambda>point radius. [(0, 0)]) patchy_archive (generateChart (1, 2) app_started)) \<and>
   (\<exists>im r. im \<in> set patchy_archive \<and> dual_pol_iw im \<and> system_time_start im = utc_ms 2018 6 10 \<and>
      bands im ''VH'' = Some r \<and> -3 \<in> set (List.map_filter r [(0, 0)]) \<and>
      (\<forall>u \<in> set (List.map_filter r [(0, 0)]). u \<le> -3))"
proof -
  from chart_series_in_archive_order
    [of "(1, 2)" app_started patchy_archive "\<lambda>point radius. [(0, 0)]"]
  have s: "rfi_series (\<lambda>point radius. [(0, 0)]) patchy_archive (generateChart (1, 2) app_started) =
     List.map_filter
       (\<lambda>im. map_option (Pair (system_time_start im))
          (covered (\<lambda>point radius. [(0, 0)]) (1, 2) 500 im))
       (filter dual_pol_iw patchy_archive)"
    and a: "\<forall>x v. (x, v) \<in> set (rfi_series (\<lambda>point radius. [(0, 0)]) patchy_archive
          (generateChart (1, 2) app_started)) \<longrightarrow>
      (\<exists>im r. im \<in> set patchy_archive \<and> dual_pol_iw im \<and> system_time_start im = x \<and>
         bands im ''VH'' = Some r \<and>
         v \<in> set (List.map_filter r [(0, 0)]) \<and>
         (\<forall>u \<in> set (List.map_filter r [(0, 0)]). u \<le> v))"
    by blast+
  have v: "rfi_series (\<lambda>point radius. [(0, 0)]) patchy_archive (generateChart (1, 2) app_started)
     = [(utc_ms 2018 3 5, -20), (utc_ms 2018 6 10, -3)]"
    unfolding s
    by (simp add: patchy_archive_def obs_def dual_pol_iw_def covered_def region_max_def
        List.map_filter_simps)
  have i: "(utc_ms 2018 6 10, -3) \<in> set
     (rfi_series (\<lambda>point radius. [(0, 0)]) patchy_archive (generateChart (1, 2) app_started))"
    unfolding v by simp
  from a i have "\<exists>im r. im \<in> set patchy_archive \<and> dual_pol_iw im \<and>
      system_time_start im = utc_ms 2018 6 10 \<and>
      bands im ''VH'' = Some r \<and> -3 \<in> set (List.map_filter r [(0, 0)]) \<and>
      (\<forall>u \<in> set (List.map_filter r [(0, 0)]). u \<le> -3)"
    by blast
  with v i show ?thesis by simp
qed


section \<open>One request after another\<close>

lemma al_set_twice: "al_set i x (al_set i y xs) = al_set i x xs"
  by (simp add: al_set_def list_update_append nth_append)

lemma al_set_3_after_three:
  "al_set 3 x (a # b # c # ys) = a # b # c # Some x # drop 1 ys"
  by (cases ys) (simp_all add: al_set_simps numeral_3_eq_3)

lemma onDateChange_twice: "onDateChange t2 (onDateChange t1 s) = onDateChange t2 s"
  by (simp add: onDateChange_def)

lemma generateChart_twice: "generateChart c2 (generateChart c1 s) = generateChart c2 s"
  by (simp add: generateChart_def Let_def al_set_twice)

lemma click_and_date_change_commute:
  "generateChart c (onDateChange t s) = onDateChange t (generateChart c s)"
proof -
  have "layers (generateChart c (onDateChange t s)) = layers (onDateChange t (generateChart c s))"
    unfolding generateChart_fields
    by (simp add: onDateChange_def generateChart_fields drop_3_al_set_3 al_set_3_after_three)
  moreover have "(generateChart c (onDateChange t s))\<lparr>layers := []\<rparr>
      = (onDateChange t (generateChart c s))\<lparr>layers := []\<rparr>"
    by (simp add: generateChart_def Let_def onDateChange_def)
  ultimately show ?thesis
    by (metis (no_types) ui_state.surjective ui_state.update_convs(2) ui_state.select_convs(2)
        ui_state.ext_inject)
qed


text \<open>
  C7, as it is stated, fails: the script keeps no request sequence number. A date change
  issued a second time leaves the very state the first left, so no number that grows with
  every request can be read from the state.
\<close>

theorem no_request_sequence_number:
  "\<not> (\<exists>seq :: ui_state \<Rightarrow> nat.
        seq (dateSlider_setValue (utc_ms 2018 6 10) app_started)
          < seq (dateSlider_setValue (utc_ms 2018 6 10)
                   (dateSlider_setValue (utc_ms 2018 6 10) app_started)))"
  by (simp add: dateSlider_setValue_onDateChange onDateChange_twice)


text \<open>
  C7, amended. Every callback runs to its end before the next one starts. A date change
  replaces the three granularity layers and the date shown; a click on the map replaces
  the marker, the chart and the coordinates shown. So after two date changes the state is
  the one the later date change alone leaves, after two clicks the one the later click
  alone leaves, and a click and a date change give the same state in either order.
\<close>

theorem last_call_wins:
  "dateSlider_setValue t2 (dateSlider_setValue t1 s) = dateSlider_setValue t2 s \<and>
   generateChart c2 (generateChart c1 s) = generateChart c2 s \<and>
   generateChart c (dateSlider_setValue t s) = dateSlider_setValue t (generateChart c s)"
  by (simp add: dateSlider_setValue_onDateChange onDateChange_twice generateChart_twice
      click_and_date_change_commute)


text \<open>Two date changes, 2018-06-10 and then 2021-12-14: the later date is shown.\<close>

theorem last_call_wins_witness:
  "date_label (dateSlider_setValue (utc_ms 2021 12 14)
      (dateSlider_setValue (utc_ms 2018 6 10) app_started)) = ''December 14, 2021'' \<and>
   dateSlider_value (dateSlider_setValue (utc_ms 2021 12 14)
      (dateSlider_setValue (utc_ms 2018 6 10) app_started))
     = Some (utc_ms 2021 12 14, utc_ms 2021 12 15)"
proof -
  have "dateSlider_setValue (utc_ms 2021 12 14)
      (dateSlider_setValue (utc_ms 2018 6 10) app_started)
    = dateSlider_setValue (utc_ms 2021 12 14) app_started"
    using last_call_wins [of "utc_ms 2021 12 14" "utc_ms 2018 6 10" app_started] by blast
  then show ?thesis
    by (simp add: dateSlider_setValue_onDateChange onDateChange_fields samples_2021_12_14)
qed

end
